theory Spec2Isabelle
  imports Complex_Main "HOL-Library.AList"
begin

section \<open>Data model of the control center (launcher.py)\<close>

text \<open>
  Names: \<open>worker_start_services\<close> and \<open>worker_stop_services\<close> are
  \<^verbatim>\<open>ServiceWorker._start_services\<close> and \<^verbatim>\<open>ServiceWorker._stop_services\<close>;
  \<open>queue_start\<close> and \<open>queue_stop\<close> are \<^verbatim>\<open>ServiceWorker.start_services\<close> and
  \<^verbatim>\<open>ServiceWorker.stop_services\<close>; \<open>worker_run\<close> is \<^verbatim>\<open>ServiceWorker.run\<close>;
  \<open>start_services\<close>, \<open>stop_services\<close>, \<open>get_system_status\<close> and
  \<open>update_status_indicators\<close> are the methods of \<^verbatim>\<open>Gary4JUCEControlCenter\<close>;
  \<open>cycle\<close> is the body of the \<^verbatim>\<open>try\<close> block of \<^verbatim>\<open>HealthChecker.run\<close> and
  \<open>run\<close> its loop.
\<close>

text \<open>
  The launcher keeps three objects: the main window \<^verbatim>\<open>Gary4JUCEControlCenter\<close> (called
  \<^verbatim>\<open>parent\<close> by the two threads), the \<^verbatim>\<open>ServiceWorker\<close> thread and the
  \<^verbatim>\<open>HealthChecker\<close> thread. Their fields are gathered in one record \<open>app\<close> that every
  operation takes and returns. Python dictionaries keep insertion order and are iterated
  in it, so they are association lists written with \<open>AList.update\<close> and
  \<open>AList.delete\<close>. Timestamps of \<^verbatim>\<open>time.time()\<close> are real numbers of seconds.
\<close>

text \<open>One entry of \<^verbatim>\<open>self.services\<close>: the keys "dir", "script", "port", "name".\<close>

record config =
  cfg_dir :: string
  cfg_script :: string
  cfg_port :: nat
  cfg_name :: string

text \<open>
  A \<^verbatim>\<open>subprocess.Popen\<close> handle as the code observes it: its pid and what
  \<^verbatim>\<open>process.poll()\<close> answers, \<open>None\<close> while the process runs and the exit code
  once it has exited.
\<close>

record proc =
  pid :: nat
  poll :: "int option"

text \<open>The dictionary returned by \<^verbatim>\<open>check_service_health_detailed\<close>.\<close>

record detailed =
  success :: bool
  healthy :: bool
  error :: string

datatype operation = OpStart | OpStop

text \<open>The four display states "stopped", "starting", "running", "error".\<close>

datatype display_state = StateStopped | StateStarting | StateRunning | StateError

text \<open>
  The lines written to the log viewer. The emoji and the wording of the messages are
  left out; each constructor stands for one message of the source and carries the
  values that the message formats.
\<close>

datatype log_event =
    IsHealthy string                  \<comment> \<open>"<name> is healthy"\<close>
  | HealthCheckFailed string          \<comment> \<open>"<name> health check failed"\<close>
  | ProcessDied string int            \<comment> \<open>"<name> process died (exit code: <n>)"\<close>
  | AccessViolationHint               \<comment> \<open>"Windows Access Violation - likely dependency issue"\<close>
  | HealthCheckError log_event        \<comment> \<open>"Health check error: <e>", \<open>e\<close> the failed call\<close>
  | StartingBackend                   \<comment> \<open>"starting gary4juce backend..."\<close>
  | RedisNotFound                     \<comment> \<open>"Redis not found - please run installer first"\<close>
  | StartingRedis                     \<comment> \<open>"Starting Redis server..."\<close>
  | RedisDefaultConfig                \<comment> \<open>"Using Redis default configuration"\<close>
  | RedisStarted nat                  \<comment> \<open>"Redis process started (PID: <pid>)"\<close>
  | RedisDiedImmediately int          \<comment> \<open>"Redis process died immediately (exit code: <n>)"\<close>
  | RedisDeleteConfHint               \<comment> \<open>"Try manually deleting: <path>"\<close>
  | RedisResponding                   \<comment> \<open>"Redis server is responding"\<close>
  | WaitingForRedis nat nat           \<comment> \<open>"Waiting for Redis... (<k>/<max>)"\<close>
  | RedisNotResponding                \<comment> \<open>"Redis started but not responding to health checks"\<close>
  | RedisStartFailed                  \<comment> \<open>"Failed to start Redis: <e>"\<close>
  | FilesNotFound string bool bool    \<comment> \<open>"<name> files not found - Python: <b>, Script: <b>"\<close>
  | StartingService string nat        \<comment> \<open>"starting <name> on port <port>..."\<close>
  | ServiceStarted string nat         \<comment> \<open>"<name> process started (PID: <pid>)"\<close>
  | DebugLogAt string                 \<comment> \<open>"Debug log: <file>"\<close>
  | DebugLogPath string               \<comment> \<open>"<file>", the closing list of debug logs\<close>
  | ServiceDiedImmediately string int \<comment> \<open>"<name> process died immediately (exit code: <n>)"\<close>
  | ErrorLine string                  \<comment> \<open>"ERROR: <line>"\<close>
  | NoErrorOutput                     \<comment> \<open>"No error output captured"\<close>
  | CouldNotReadDebugLog              \<comment> \<open>"Could not read debug log: <e>"\<close>
  | AccessViolationDetected           \<comment> \<open>"Windows Access Violation detected - ..."\<close>
  | RunningSuccessfully string        \<comment> \<open>"<name> process running successfully"\<close>
  | ServiceStartFailed string         \<comment> \<open>"Failed to start <name>: <e>"\<close>
  | AllServicesStarted                \<comment> \<open>"all services started!"\<close>
  | MayTakeAMoment                    \<comment> \<open>"services may take a moment to become healthy..."\<close>
  | CheckDebugLogs                    \<comment> \<open>"Check debug logs if services fail to start:"\<close>
  | ErrorStartingServices             \<comment> \<open>"error starting services: <e>"\<close>
  | StoppingServicesWorker            \<comment> \<open>"stopping gary4juce services..."\<close>
  | Stopped string                    \<comment> \<open>"stopped <name>"\<close>
  | ForceStopped string               \<comment> \<open>"force stopped <name>"\<close>
  | ErrorStopping string              \<comment> \<open>"error stopping <id>: <e>"\<close>
  | StoppedRedisProcesses             \<comment> \<open>"stopped redis processes"\<close>
  | AllServicesStopped                \<comment> \<open>"all services stopped."\<close>
  | StartingServices                  \<comment> \<open>"starting services..." (entry point)\<close>
  | StoppingServices                  \<comment> \<open>"stopping services..." (entry point)\<close>

text \<open>The signals of the worker thread.\<close>

datatype signal = StatusChanged | ServicesStarted | ServicesStopped

text \<open>
  What the worker does that the rest of the program and the outside world can observe,
  in the order it does it: processes launched with \<^verbatim>\<open>subprocess.Popen\<close> (by service
  identifier, with the environment variables set on top of the inherited ones),
  \<^verbatim>\<open>terminate()\<close> and \<^verbatim>\<open>kill()\<close> on a handle, the \<^verbatim>\<open>taskkill\<close> backstop, the
  writes of \<^verbatim>\<open>parent.services_running\<close> and \<^verbatim>\<open>parent.start_time\<close>, which the other
  threads read, and the signals it emits. The probes of the health monitor have a
  trace of their own.
\<close>

datatype os_event =
    Popen string "(string \<times> string) list"
  | Terminate string
  | Kill string
  | Taskkill
  | SetServicesRunning bool       \<comment> \<open>\<^verbatim>\<open>self.parent.services_running = ...\<close>\<close>
  | SetStartTime "real option"    \<comment> \<open>\<^verbatim>\<open>self.parent.start_time = ...\<close>\<close>
  | Emit signal                   \<comment> \<open>\<^verbatim>\<open>self.<signal>.emit()\<close>\<close>

datatype probe =
    RedisProbe                  \<comment> \<open>\<^verbatim>\<open>check_redis_health()\<close>\<close>
  | PortProbe nat               \<comment> \<open>\<^verbatim>\<open>check_port_listening(port)\<close>\<close>
  | HealthProbe nat nat         \<comment> \<open>\<^verbatim>\<open>check_service_health(port, timeout)\<close>\<close>
  | DetailedProbe nat nat       \<comment> \<open>\<^verbatim>\<open>check_service_health_detailed(port, timeout)\<close>\<close>

record app =
  services :: "(string \<times> config) list"
  services_running :: bool
  processes :: "(string \<times> proc) list"
  start_time :: "real option"
  last_health_status :: "(string \<times> bool) list"
  log_viewer :: "log_event list"
  start_btn_enabled :: bool
  stop_btn_enabled :: bool
  start_btn_text :: string
  stop_btn_text :: string
  redis_status :: display_state
  service_widgets :: "(string \<times> display_state) list"
  worker_operation :: "operation option"
  worker_is_running :: bool
  detailed_check_counter :: nat
  services_confirmed_healthy :: "(string \<times> real) list"
  os_events :: "os_event list"
  probes :: "probe list"
  health_status_emitted :: "(string \<times> bool) list list"
  detailed_health_emitted :: "(string \<times> detailed) list"

text \<open>\<^verbatim>\<open>d.get(k, default)\<close> and \<^verbatim>\<open>k in d\<close> on a dictionary.\<close>

definition dict_get :: "(string \<times> 'a) list \<Rightarrow> string \<Rightarrow> 'a \<Rightarrow> 'a" where
  "dict_get d k dflt = (case map_of d k of None \<Rightarrow> dflt | Some v \<Rightarrow> v)"

definition dict_in :: "string \<Rightarrow> (string \<times> 'a) list \<Rightarrow> bool" where
  "dict_in k d = (map_of d k \<noteq> None)"

text \<open>The three services configured in \<^verbatim>\<open>Gary4JUCEControlCenter.__init__\<close>.\<close>

definition default_services :: "(string \<times> config) list" where
  "default_services =
     [(''gary'', \<lparr>cfg_dir = ''gary'', cfg_script = ''g4l_localhost.py'',
                  cfg_port = 8000, cfg_name = ''gary main''\<rparr>),
      (''melodyflow'', \<lparr>cfg_dir = ''melodyflow'', cfg_script = ''localhost_melodyflow.py'',
                  cfg_port = 8002, cfg_name = ''terry (melodyflow)''\<rparr>),
      (''stable-audio'', \<lparr>cfg_dir = ''stable-audio'', cfg_script = ''api.py'',
                  cfg_port = 8005, cfg_name = ''jerry (stable audio open small)''\<rparr>)]"

text \<open>The state built by \<^verbatim>\<open>__init__\<close>: nothing running, empty registries.\<close>

definition init_app :: app where
  "init_app =
     \<lparr>services = default_services, services_running = False, processes = [],
      start_time = None, last_health_status = [], log_viewer = [],
      start_btn_enabled = True, stop_btn_enabled = False,
      start_btn_text = ''start all services'', stop_btn_text = ''stop all services'',
      redis_status = StateStopped,
      service_widgets = map (\<lambda>sc. (fst sc, StateStopped)) default_services,
      worker_operation = None, worker_is_running = False,
      detailed_check_counter = 0, services_confirmed_healthy = [],
      os_events = [], probes = [], health_status_emitted = [],
      detailed_health_emitted = []\<rparr>"

section \<open>The health monitor: \<^verbatim>\<open>HealthChecker.run\<close>\<close>

text \<open>
  What one cycle reads from outside: the clock, the answers of the probes (each of
  them catches every exception itself and answers a boolean), and whether a call of
  \<^verbatim>\<open>parent.add_log\<close> from the monitor thread raises.
\<close>

record hc_env =
  now :: real
  check_redis_health :: bool
  check_port_listening :: "nat \<Rightarrow> bool"
  check_service_health :: "nat \<Rightarrow> nat \<Rightarrow> bool"
  check_service_health_detailed :: "nat \<Rightarrow> nat \<Rightarrow> detailed"
  add_log_raises :: "log_event \<Rightarrow> bool"

text \<open>
  \<^verbatim>\<open>parent.add_log\<close> called inside the monitor thread: the line is appended, or the
  call raises. An exception is \<open>Inl\<close> with the line whose logging failed and the state
  reached so far (mutations made before a raise stay made).
\<close>

definition add_log :: "hc_env \<Rightarrow> log_event \<Rightarrow> app \<Rightarrow> (log_event \<times> app) + app" where
  "add_log env ev s =
     (if add_log_raises env ev then Inl (ev, s)
      else Inr (s\<lparr>log_viewer := log_viewer s @ [ev]\<rparr>))"

text \<open>The body of the loop over \<^verbatim>\<open>self.parent.services.items()\<close> (lines 274-330).\<close>

definition check_service ::
  "hc_env \<Rightarrow> string \<times> config \<Rightarrow> (string \<times> bool) list \<times> app
     \<Rightarrow> (log_event \<times> app) + ((string \<times> bool) list \<times> app)" where
  "check_service env sc acc =
    (case sc of (name, config) \<Rightarrow> case acc of (status, s) \<Rightarrow>
     (case (if services_running s then map_of (processes s) name else None) of
        Some process \<Rightarrow>
          (case poll process of
             None \<Rightarrow>
            (if dict_in name (services_confirmed_healthy s) \<and>
                now env - dict_get (services_confirmed_healthy s) name 0 < 300 then
               Inr (AList.update name (check_port_listening env (cfg_port config)) status,
                    s\<lparr>probes := probes s @ [PortProbe (cfg_port config)]\<rparr>)
             else
               let timeout = (if name = ''gary'' then 10 else 3);
                   (health_ok, s1) =
                     (if detailed_check_counter s mod 20 = 0 then
                        let d = check_service_health_detailed env (cfg_port config) timeout in
                        (healthy d,
                         s\<lparr>probes := probes s @ [DetailedProbe (cfg_port config) timeout],
                           detailed_health_emitted := detailed_health_emitted s @ [(name, d)]\<rparr>)
                      else
                        (check_service_health env (cfg_port config) timeout,
                         s\<lparr>probes := probes s @ [HealthProbe (cfg_port config) timeout]\<rparr>))
               in
               if health_ok then
                 let s2 = s1\<lparr>services_confirmed_healthy :=
                                AList.update name (now env) (services_confirmed_healthy s1)\<rparr>;
                     status' = AList.update name True status
                 in
                 if \<not> dict_in name (services_confirmed_healthy s2) \<or>
                    now env - dict_get (services_confirmed_healthy s2) name 0 > 300 then
                   (case add_log env (IsHealthy (cfg_name config)) s2 of
                      Inl x \<Rightarrow> Inl x
                    | Inr s3 \<Rightarrow> Inr (status', s3))
                 else Inr (status', s2)
               else
                 (case (if dict_in name (services_confirmed_healthy s1) then
                          add_log env (HealthCheckFailed (cfg_name config))
                            (s1\<lparr>services_confirmed_healthy :=
                                  AList.delete name (services_confirmed_healthy s1)\<rparr>)
                        else Inr s1) of
                    Inl x \<Rightarrow> Inl x
                  | Inr s2 \<Rightarrow>
                      Inr (AList.update name (check_port_listening env (cfg_port config)) status,
                           s2\<lparr>probes := probes s2 @ [PortProbe (cfg_port config)]\<rparr>)))
           | Some exit_code \<Rightarrow>
            (let status' = AList.update name False status;
                 s1 = (if dict_in name (services_confirmed_healthy s) then
                         s\<lparr>services_confirmed_healthy :=
                             AList.delete name (services_confirmed_healthy s)\<rparr>
                       else s)
             in
             case add_log env (ProcessDied (cfg_name config) exit_code) s1 of
               Inl x \<Rightarrow> Inl x
             | Inr s2 \<Rightarrow>
                 if exit_code = 3221225477 then
                   (case add_log env AccessViolationHint s2 of
                      Inl x \<Rightarrow> Inl x
                    | Inr s3 \<Rightarrow> Inr (status', s3))
                 else Inr (status', s2)))
      | None \<Rightarrow>
          Inr (AList.update name False status,
               if dict_in name (services_confirmed_healthy s) then
                 s\<lparr>services_confirmed_healthy :=
                     AList.delete name (services_confirmed_healthy s)\<rparr>
               else s)))"

fun check_services ::
  "hc_env \<Rightarrow> (string \<times> config) list \<Rightarrow> (string \<times> bool) list \<times> app
     \<Rightarrow> (log_event \<times> app) + ((string \<times> bool) list \<times> app)" where
  "check_services env [] acc = Inr acc"
| "check_services env (sc # rest) acc =
     (case check_service env sc acc of
        Inl x \<Rightarrow> Inl x
      | Inr acc' \<Rightarrow> check_services env rest acc')"

text \<open>The adaptive sleep timing (lines 335-346), in seconds.\<close>

definition sleep_time ::
  "(string \<times> config) list \<Rightarrow> (string \<times> bool) list \<Rightarrow> (string \<times> real) list \<Rightarrow> nat" where
  "sleep_time svcs status confirmed =
     (let all_services_healthy = list_all (\<lambda>name. dict_get status name False) (map fst svcs)
      in
      if all_services_healthy \<and> length confirmed = length svcs then 15
      else if list_ex (\<lambda>name. dict_get status name False) (map fst svcs) then 8
      else 3)"

text \<open>
  One pass of the \<^verbatim>\<open>try\<close> block: probe Redis, check every service, count the cycle,
  emit the snapshot, choose the sleep time. \<open>Inr\<close> carries the published snapshot, the
  sleep time and the new state; \<open>Inl\<close> is an exception raised inside the block.
\<close>

definition cycle ::
  "hc_env \<Rightarrow> app \<Rightarrow> (log_event \<times> app) + ((string \<times> bool) list \<times> nat \<times> app)" where
  "cycle env s =
     (let status0 = AList.update ''redis'' (check_redis_health env) [];
          s0 = s\<lparr>probes := probes s @ [RedisProbe]\<rparr>
      in
      case check_services env (services s0) (status0, s0) of
        Inl x \<Rightarrow> Inl x
      | Inr (status, s1) \<Rightarrow>
          let s2 = s1\<lparr>detailed_check_counter := detailed_check_counter s1 + 1,
                      health_status_emitted := health_status_emitted s1 @ [status]\<rparr>
          in Inr (status, sleep_time (services s2) status (services_confirmed_healthy s2), s2))"

text \<open>
  The \<^verbatim>\<open>while self.running\<close> loop. \<^verbatim>\<open>stop()\<close> is called from another thread, so
  the loop is run against a schedule: one entry per turn of the loop, saying whether the
  flag has been cleared when the loop condition is tested and what the world answers
  during that turn. A schedule that ends leaves the loop still running.
\<close>

record tick =
  stop_called :: bool
  tick_env :: hc_env

datatype ending =
    StopFlag            \<comment> \<open>the loop condition found \<^verbatim>\<open>self.running\<close> false\<close>
  | ExceptionBreak      \<comment> \<open>the \<^verbatim>\<open>except\<close> handler logged and executed \<^verbatim>\<open>break\<close>\<close>
  | HandlerRaised       \<comment> \<open>\<^verbatim>\<open>add_log\<close> raised inside the handler; \<^verbatim>\<open>run\<close> is left by it\<close>
  | StillRunning        \<comment> \<open>the schedule is used up\<close>

text \<open>The result: how the loop ended, how many cycles were begun, the final state.\<close>

fun run :: "tick list \<Rightarrow> nat \<Rightarrow> app \<Rightarrow> ending \<times> nat \<times> app" where
  "run [] n s = (StillRunning, n, s)"
| "run (t # ts) n s =
     (if stop_called t then (StopFlag, n, s)
      else
        case cycle (tick_env t) s of
          Inr (status, secs, s') \<Rightarrow> run ts (Suc n) s'
        | Inl (e, s') \<Rightarrow>
            (case add_log (tick_env t) (HealthCheckError e) s' of
               Inl (e', s'') \<Rightarrow> (HandlerRaised, Suc n, s'')
             | Inr s'' \<Rightarrow> (ExceptionBreak, Suc n, s'')))"

text \<open>What a cycle published: the snapshot and the sleep time, when it completed.\<close>

definition published ::
  "(log_event \<times> app) + ((string \<times> bool) list \<times> nat \<times> app)
     \<Rightarrow> ((string \<times> bool) list \<times> nat) option" where
  "published r = (case r of Inl x \<Rightarrow> None | Inr (status, secs, s) \<Rightarrow> Some (status, secs))"

section \<open>The supervisor worker: \<^verbatim>\<open>ServiceWorker\<close>\<close>

text \<open>
  The worker reports through its \<^verbatim>\<open>log_message\<close> signal, which is connected to
  \<^verbatim>\<open>add_log\<close>: the line is appended to the log viewer. The entry points on the GUI
  thread call \<^verbatim>\<open>add_log\<close> directly, with the same effect. The signals
  \<^verbatim>\<open>status_changed\<close>, \<^verbatim>\<open>services_started\<close> and \<^verbatim>\<open>services_stopped\<close> make the
  main window redraw its indicators (\<open>update_status_indicators\<close> below) at some later
  moment; the worker's operations record that they were emitted. Paths are named by
  the service identifier.
\<close>

definition emit_log :: "log_event \<Rightarrow> app \<Rightarrow> app" where
  "emit_log ev s = s\<lparr>log_viewer := log_viewer s @ [ev]\<rparr>"

text \<open>
  What a start operation finds outside: the clock, whether \<^verbatim>\<open>redis-server.exe\<close>
  exists, the handle \<^verbatim>\<open>Popen\<close> returns for Redis as it is after the settle delay
  (\<open>None\<close> when the launch raises), the answer of \<^verbatim>\<open>check_redis_health\<close> at each
  attempt, whether loading the environment variables raises, per service whether
  \<^verbatim>\<open>python.exe\<close> and the script exist, the handle of its launch after the settle
  delay (\<open>None\<close> when opening the debug log or \<^verbatim>\<open>Popen\<close> raises), and the lines of
  its stripped debug log (\<open>None\<close> when reading it raises, \<open>[]\<close> when it is blank).
\<close>

record start_env =
  time_now :: real
  redis_exe_exists :: bool
  redis_popen :: "proc option"
  redis_health_at :: "nat \<Rightarrow> bool"
  env_load_raises :: bool
  python_exe_exists :: "string \<Rightarrow> bool"
  script_exists :: "string \<Rightarrow> bool"
  service_popen :: "string \<Rightarrow> proc option"
  debug_log :: "string \<Rightarrow> string list option"

text \<open>
  The retry loop \<^verbatim>\<open>for attempt in range(max_retries)\<close> (lines 112-121): it stops at
  the first attempt that finds Redis responding; the last attempt logs that Redis does
  not respond, and the loop ends. Nothing is returned and nothing is raised.
\<close>

fun redis_retry :: "(nat \<Rightarrow> bool) \<Rightarrow> nat \<Rightarrow> nat list \<Rightarrow> app \<Rightarrow> app" where
  "redis_retry h max_retries [] s = s"
| "redis_retry h max_retries (attempt # rest) s =
     (if h attempt then emit_log RedisResponding s
      else if attempt < max_retries - 1 then
        redis_retry h max_retries rest (emit_log (WaitingForRedis (attempt + 1) max_retries) s)
      else redis_retry h max_retries rest (emit_log RedisNotResponding s))"

text \<open>The variables set on top of the loaded environment for one service.\<close>

definition service_env :: "string \<Rightarrow> (string \<times> string) list" where
  "service_env name =
     (if name = ''melodyflow'' then
        [(''XFORMERS_DISABLED'', ''1''), (''FLASH_ATTENTION_DISABLED'', ''1'')]
      else []) @
     [(''PYTHONIOENCODING'', ''utf-8''), (''PYTHONLEGACYWINDOWSSTDIO'', ''1'')]"

text \<open>The body of the loop over the services (lines 134-200).\<close>

definition start_service :: "start_env \<Rightarrow> string \<times> config \<Rightarrow> app \<Rightarrow> app" where
  "start_service env sc s =
    (case sc of (name, config) \<Rightarrow>
     if \<not> python_exe_exists env name \<or> \<not> script_exists env name then
       emit_log (FilesNotFound (cfg_name config) (python_exe_exists env name)
                   (script_exists env name)) s
     else
       let s1 = emit_log (StartingService (cfg_name config) (cfg_port config)) s in
       case service_popen env name of
         None \<Rightarrow> emit_log (ServiceStartFailed (cfg_name config)) s1
       | Some process \<Rightarrow>
           let s2 = s1\<lparr>os_events := os_events s1 @ [Popen name (service_env name)],
                      processes := AList.update name process (processes s1)\<rparr>;
               s3 = emit_log (DebugLogAt name)
                      (emit_log (ServiceStarted (cfg_name config) (pid process)) s2)
           in
           case poll process of
             Some exit_code \<Rightarrow>
               let s4 = emit_log (ServiceDiedImmediately (cfg_name config) exit_code) s3;
                   s5 = (case debug_log env name of
                           None \<Rightarrow> emit_log CouldNotReadDebugLog s4
                         | Some error_lines \<Rightarrow>
                             if error_lines \<noteq> [] then
                               fold (\<lambda>line. emit_log (ErrorLine line)) (take 5 error_lines) s4
                             else emit_log NoErrorOutput s4)
               in if exit_code = 3221225477 then emit_log AccessViolationDetected s5 else s5
           | None \<Rightarrow> emit_log (RunningSuccessfully (cfg_name config)) s3)"

text \<open>\<^verbatim>\<open>ServiceWorker._start_services\<close> (lines 60-211).\<close>

definition worker_start_services :: "start_env \<Rightarrow> app \<Rightarrow> app" where
  "worker_start_services env s =
    (if services_running s then s
     else
       let s1 = (emit_log StartingBackend s)
                  \<lparr>services_running := True, start_time := Some (time_now env),
                   os_events := os_events s @
                     [SetServicesRunning True, SetStartTime (Some (time_now env)),
                      Emit StatusChanged]\<rparr>
       in
       if \<not> redis_exe_exists env then emit_log RedisNotFound s1
       else
         let s2 = emit_log RedisDefaultConfig (emit_log StartingRedis s1) in
         case redis_popen env of
           None \<Rightarrow> emit_log RedisStartFailed s2
         | Some redis_process \<Rightarrow>
             let s3 = emit_log (RedisStarted (pid redis_process))
                        (s2\<lparr>os_events := os_events s2 @ [Popen ''redis'' []],
                            processes := AList.update ''redis'' redis_process (processes s2)\<rparr>)
             in
             case poll redis_process of
               Some exit_code \<Rightarrow>
                 emit_log RedisDeleteConfHint (emit_log (RedisDiedImmediately exit_code) s3)
             | None \<Rightarrow>
                 let s4 = redis_retry (redis_health_at env) 5 [0..<5] s3 in
                 if env_load_raises env then emit_log ErrorStartingServices s4
                 else
                   let s5 = fold (start_service env) (services s4) s4;
                       s6 = emit_log CheckDebugLogs
                              (emit_log MayTakeAMoment (emit_log AllServicesStarted s5));
                       s7 = fold (\<lambda>name. emit_log (DebugLogPath name))
                              (map fst (services s6)) s6
                   in s7\<lparr>os_events := os_events s7 @ [Emit ServicesStarted]\<rparr>)"

text \<open>
  How stopping one live process goes: \<^verbatim>\<open>terminate()\<close> or the first wait raises
  something other than the timeout; the process exits within 5 seconds; it does not,
  and \<^verbatim>\<open>kill()\<close> ends it within 2 more; or the kill or the second wait raises.
\<close>

datatype stop_outcome = TerminateRaises | ExitsInTime | KilledInTime | KillFails

record stop_env =
  terminate_outcome :: "string \<Rightarrow> stop_outcome"
  taskkill_raises :: bool

text \<open>The body of the loop over \<^verbatim>\<open>self.parent.processes.items()\<close> (lines 221-234).\<close>

definition stop_process :: "stop_env \<Rightarrow> string \<times> proc \<Rightarrow> app \<Rightarrow> app" where
  "stop_process env np s =
    (case np of (name, process) \<Rightarrow>
     if poll process = None then
       let config_name = (case map_of (services s) name of
                            None \<Rightarrow> name | Some config \<Rightarrow> cfg_name config);
           s1 = s\<lparr>os_events := os_events s @ [Terminate name]\<rparr>
       in
       case terminate_outcome env name of
         TerminateRaises \<Rightarrow> emit_log (ErrorStopping name) s1
       | ExitsInTime \<Rightarrow> emit_log (Stopped config_name) s1
       | KilledInTime \<Rightarrow>
           emit_log (ForceStopped config_name) (s1\<lparr>os_events := os_events s1 @ [Kill name]\<rparr>)
       | KillFails \<Rightarrow>
           emit_log (ErrorStopping name) (s1\<lparr>os_events := os_events s1 @ [Kill name]\<rparr>)
     else s)"

text \<open>\<^verbatim>\<open>ServiceWorker._stop_services\<close> (lines 213-248).\<close>

definition worker_stop_services :: "stop_env \<Rightarrow> app \<Rightarrow> app" where
  "worker_stop_services env s =
    (if \<not> services_running s then s
     else
       let s1 = emit_log StoppingServicesWorker s;
           s2 = fold (stop_process env) (processes s1) s1;
           s3 = s2\<lparr>os_events := os_events s2 @ [Taskkill]\<rparr>;
           s4 = (if taskkill_raises env then s3 else emit_log StoppedRedisProcesses s3);
           s5 = emit_log AllServicesStopped
                  (s4\<lparr>processes := [], services_running := False, start_time := None,
                      os_events := os_events s4 @
                        [SetServicesRunning False, SetStartTime None]\<rparr>)
       in s5\<lparr>os_events := os_events s5 @ [Emit ServicesStopped]\<rparr>)"

text \<open>
  Queueing an operation sets it and starts the thread; \<^verbatim>\<open>run\<close> executes the queued
  operation, and the thread is running until \<^verbatim>\<open>run\<close> returns.
\<close>

definition queue_start :: "app \<Rightarrow> app" where
  "queue_start s = s\<lparr>worker_operation := Some OpStart, worker_is_running := True\<rparr>"

definition queue_stop :: "app \<Rightarrow> app" where
  "queue_stop s = s\<lparr>worker_operation := Some OpStop, worker_is_running := True\<rparr>"

definition worker_run :: "start_env \<Rightarrow> stop_env \<Rightarrow> app \<Rightarrow> app" where
  "worker_run senv kenv s =
    (let s' = (case worker_operation s of
                 Some OpStart \<Rightarrow> worker_start_services senv s
               | Some OpStop \<Rightarrow> worker_stop_services kenv s
               | None \<Rightarrow> s)
     in s'\<lparr>worker_is_running := False\<rparr>)"

section \<open>The entry points and the status aggregator: \<^verbatim>\<open>Gary4JUCEControlCenter\<close>\<close>

text \<open>\<^verbatim>\<open>start_services\<close> (lines 1372-1382) and \<^verbatim>\<open>stop_services\<close> (lines 1384-1394).\<close>

definition start_services :: "app \<Rightarrow> app" where
  "start_services s =
    (if services_running s \<or> worker_is_running s then s
     else queue_start (emit_log StartingServices (s\<lparr>start_btn_enabled := False\<rparr>)))"

definition stop_services :: "app \<Rightarrow> app" where
  "stop_services s =
    (if \<not> services_running s \<or> worker_is_running s then s
     else queue_stop (emit_log StoppingServices (s\<lparr>stop_btn_enabled := False\<rparr>)))"

text \<open>
  The state shown for one service widget (lines 1065-1087); \<open>listening\<close> is
  \<^verbatim>\<open>check_port_listening\<close>. The widgets were built from \<^verbatim>\<open>self.services\<close>, one per
  entry, so the loop over the widgets is a loop over the services.
\<close>

definition widget_status :: "(nat \<Rightarrow> bool) \<Rightarrow> app \<Rightarrow> string \<times> config \<Rightarrow> display_state" where
  "widget_status listening s sc =
    (case sc of (name, config) \<Rightarrow>
     if \<not> services_running s then StateStopped
     else
       case map_of (processes s) name of
         None \<Rightarrow> StateError
       | Some process \<Rightarrow>
           if poll process \<noteq> None then StateError
           else
             let service_healthy = dict_get (last_health_status s) name False in
             if name = ''gary'' \<and> \<not> service_healthy then
               (if listening (cfg_port config) then StateStarting else StateError)
             else if service_healthy then StateRunning
             else StateStarting)"

text \<open>\<^verbatim>\<open>update_status_indicators\<close> (lines 1054-1104).\<close>

definition update_status_indicators :: "(nat \<Rightarrow> bool) \<Rightarrow> app \<Rightarrow> app" where
  "update_status_indicators listening s =
    (let redis_healthy = dict_get (last_health_status s) ''redis'' False;
         s1 = s\<lparr>redis_status :=
                   (if \<not> services_running s then StateStopped
                    else if redis_healthy then StateRunning else StateError),
                service_widgets :=
                   map (\<lambda>sc. (fst sc, widget_status listening s sc)) (services s),
                start_btn_enabled := (\<not> services_running s \<and> \<not> worker_is_running s),
                stop_btn_enabled := (services_running s \<and> \<not> worker_is_running s)\<rparr>
     in
     if worker_is_running s then
       (if services_running s then s1\<lparr>stop_btn_text := ''stopping...''\<rparr>
        else s1\<lparr>start_btn_text := ''starting...''\<rparr>)
     else s1\<lparr>start_btn_text := ''start'', stop_btn_text := ''stop''\<rparr>)"

text \<open>\<^verbatim>\<open>on_health_status_update\<close> (lines 929-933); the summary label is left out.\<close>

definition on_health_status_update ::
  "(nat \<Rightarrow> bool) \<Rightarrow> (string \<times> bool) list \<Rightarrow> app \<Rightarrow> app" where
  "on_health_status_update listening status s =
     update_status_indicators listening (s\<lparr>last_health_status := status\<rparr>)"

text \<open>
  Whether a configured service counts in \<^verbatim>\<open>healthy_count\<close> (lines 1325-1337): its
  handle is registered and alive, and the last snapshot has it healthy or its port has
  a listener.
\<close>

definition counts_healthy :: "(nat \<Rightarrow> bool) \<Rightarrow> app \<Rightarrow> string \<times> config \<Rightarrow> bool" where
  "counts_healthy listening s sc =
    (case sc of (name, config) \<Rightarrow>
     case map_of (processes s) name of
       None \<Rightarrow> False
     | Some process \<Rightarrow>
         poll process = None \<and>
         (dict_get (last_health_status s) name False \<or> listening (cfg_port config)))"

text \<open>\<^verbatim>\<open>get_system_status\<close> (lines 1307-1350).\<close>

definition get_system_status :: "(nat \<Rightarrow> bool) \<Rightarrow> app \<Rightarrow> display_state" where
  "get_system_status listening s =
    (if \<not> services_running s then StateStopped
     else
       let dead_processes =
             length (filter (\<lambda>np. fst np \<noteq> ''redis'' \<and> poll (snd np) \<noteq> None) (processes s))
       in
       if dead_processes > 0 then StateError
       else
         let healthy_count = length (filter (counts_healthy listening s) (services s));
             total_services = length (services s);
             redis_healthy = (if dict_get (last_health_status s) ''redis'' False then True
                              else listening 6379)
         in
         if healthy_count = total_services \<and> redis_healthy then StateRunning
         else if healthy_count > 0 \<or> redis_healthy then StateStarting
         else StateError)"

text \<open>
  The overall state as the specification words it, to compare with the code: after the
  same two first cases, "running" when every configured service counts and the
  dependency is healthy, "starting" when the share of services that count is strictly
  between 0 and 100 percent or the dependency alone is healthy, and "error" otherwise.
\<close>

definition spec_system_status :: "(nat \<Rightarrow> bool) \<Rightarrow> app \<Rightarrow> display_state" where
  "spec_system_status listening s =
    (if \<not> services_running s then StateStopped
     else if list_ex (\<lambda>np. fst np \<noteq> ''redis'' \<and> poll (snd np) \<noteq> None) (processes s)
       then StateError
     else
       let healthy_count = length (filter (counts_healthy listening s) (services s));
           total_services = length (services s);
           redis_healthy = (dict_get (last_health_status s) ''redis'' False \<or> listening 6379)
       in
       if healthy_count = total_services \<and> redis_healthy then StateRunning
       else if (0 < healthy_count \<and> healthy_count < total_services) \<or>
               (redis_healthy \<and> healthy_count = 0) then StateStarting
       else StateError)"

section \<open>Concrete worlds and states\<close>

text \<open>Every probe succeeds and logging works; the clock reads 1000 s.\<close>

definition quiet_env :: hc_env where
  "quiet_env =
     \<lparr>now = 1000, check_redis_health = True, check_port_listening = (\<lambda>port. True),
      check_service_health = (\<lambda>port timeout. True),
      check_service_health_detailed =
        (\<lambda>port timeout. \<lparr>success = True, healthy = True, error = []\<rparr>),
      add_log_raises = (\<lambda>ev. False)\<rparr>"

text \<open>Every port has a listener but no health request is answered.\<close>

definition busy_env :: hc_env where
  "busy_env =
     quiet_env\<lparr>check_service_health := (\<lambda>port timeout. False),
       check_service_health_detailed :=
         (\<lambda>port timeout. \<lparr>success = False, healthy = False, error = ''Timeout''\<rparr>)\<rparr>"

text \<open>Logging the death of a process raises; every other line is logged.\<close>

definition failing_log_env :: hc_env where
  "failing_log_env =
     quiet_env\<lparr>add_log_raises :=
       (\<lambda>ev. case ev of ProcessDied n c \<Rightarrow> True | _ \<Rightarrow> False)\<rparr>"

definition alive :: "nat \<Rightarrow> proc" where
  "alive p = \<lparr>pid = p, poll = None\<rparr>"

text \<open>Started, Redis and the three services alive.\<close>

definition all_alive_app :: app where
  "all_alive_app =
     init_app\<lparr>services_running := True, start_time := Some 500,
       processes := [(''redis'', alive 1), (''gary'', alive 2), (''melodyflow'', alive 3),
                     (''stable-audio'', alive 4)]\<rparr>"

text \<open>
  As before, but the process of gary has exited with code 1, 100 seconds after it was
  last confirmed healthy.
\<close>

definition gary_died_app :: app where
  "gary_died_app =
     all_alive_app\<lparr>
       processes := [(''redis'', alive 1), (''gary'', \<lparr>pid = 2, poll = Some 1\<rparr>),
                     (''melodyflow'', alive 3), (''stable-audio'', alive 4)],
       services_confirmed_healthy := [(''gary'', 900)]\<rparr>"

text \<open>
  Not started, although a handle of gary is left in the registry with a fresh
  confirmed-healthy entry.
\<close>

definition stopped_app :: app where
  "stopped_app =
     init_app\<lparr>processes := [(''gary'', alive 2)],
       services_confirmed_healthy := [(''gary'', 900)]\<rparr>"

text \<open>
  A start in which everything works: Redis launches and answers, every file exists and
  every service launches and stays alive.
\<close>

definition good_start_env :: start_env where
  "good_start_env =
     \<lparr>time_now = 500, redis_exe_exists = True, redis_popen = Some (alive 1),
      redis_health_at = (\<lambda>attempt. True), env_load_raises = False,
      python_exe_exists = (\<lambda>name. True), script_exists = (\<lambda>name. True),
      service_popen = (\<lambda>name. Some (alive (if name = ''gary'' then 2
                                 else if name = ''melodyflow'' then 3 else 4))),
      debug_log = (\<lambda>name. Some [])\<rparr>"

text \<open>Redis launches and stays alive but answers none of the health checks.\<close>

definition redis_silent_env :: start_env where
  "redis_silent_env = good_start_env\<lparr>redis_health_at := (\<lambda>attempt. False)\<rparr>"

text \<open>\<^verbatim>\<open>redis-server.exe\<close> is missing.\<close>

definition no_redis_env :: start_env where
  "no_redis_env = good_start_env\<lparr>redis_exe_exists := False\<rparr>"

text \<open>Every process exits within the timeout when asked to terminate.\<close>

definition gentle_stop_env :: stop_env where
  "gentle_stop_env = \<lparr>terminate_outcome = (\<lambda>name. ExitsInTime), taskkill_raises = False\<rparr>"

text \<open>The service ports have listeners, the Redis ports have none.\<close>

definition no_redis_listening :: "nat \<Rightarrow> bool" where
  "no_redis_listening port = (port \<noteq> 6379 \<and> port \<noteq> 6380)"

text \<open>Everything alive, the last snapshot has the three services healthy and Redis not.\<close>

definition redis_down_app :: app where
  "redis_down_app =
     all_alive_app\<lparr>last_health_status :=
       [(''redis'', False), (''gary'', True), (''melodyflow'', True),
        (''stable-audio'', True)]\<rparr>"

text \<open>Everything alive, the last snapshot has gary unhealthy and the others healthy.\<close>

definition gary_busy_app :: app where
  "gary_busy_app =
     all_alive_app\<lparr>last_health_status :=
       [(''redis'', True), (''gary'', False), (''melodyflow'', True),
        (''stable-audio'', True)]\<rparr>"

text \<open>The initial state after the start entry point: the worker runs a start.\<close>

definition start_in_flight_app :: app where
  "start_in_flight_app = start_services init_app"

text \<open>A write of the aggregate running flag or of the start timestamp.\<close>

definition flag_write :: "os_event \<Rightarrow> bool" where
  "flag_write e =
     (case e of SetServicesRunning b \<Rightarrow> True | SetStartTime t \<Rightarrow> True | _ \<Rightarrow> False)"

text \<open>The line that ends a start which stopped before the services.\<close>

definition abort_line :: "log_event \<Rightarrow> bool" where
  "abort_line ev \<longleftrightarrow>
     ev = RedisNotFound \<or> ev = RedisStartFailed \<or> ev = RedisDeleteConfHint \<or>
     ev = ErrorStartingServices"

text \<open>The number of launches of one identifier among the operations on the outside.\<close>

definition launched :: "string \<Rightarrow> os_event list \<Rightarrow> nat" where
  "launched name evs =
     length (filter (\<lambda>e. case e of Popen n vars \<Rightarrow> n = name | _ \<Rightarrow> False) evs)"

text \<open>A turn of the loop in which stop has not been called and logging a death raises.\<close>

definition failing_tick :: tick where
  "failing_tick = \<lparr>stop_called = False, tick_env = failing_log_env\<rparr>"

text \<open>A turn of the loop that finds stop called.\<close>

definition stop_tick :: tick where
  "stop_tick = \<lparr>stop_called = True, tick_env = quiet_env\<rparr>"

section \<open>Properties of the health monitor\<close>

lemmas world_defs = quiet_env_def busy_env_def failing_log_env_def alive_def
  all_alive_app_def gary_died_app_def stopped_app_def init_app_def default_services_def

lemmas monitor_defs = published_def cycle_def check_service_def add_log_def sleep_time_def
  dict_get_def dict_in_def Let_def

subsection \<open>What one service check leaves alone\<close>

lemma check_service_frame:
  "check_service env sc (status, s) = Inr (status', s') \<Longrightarrow>
     services_running s' = services_running s \<and> processes s' = processes s \<and>
     services s' = services s"
  by (cases sc)
     (auto simp: check_service_def Let_def add_log_def
           split: option.splits if_splits sum.splits prod.splits)

lemma check_service_other:
  "check_service env (n, c) (status, s) = Inr (status', s') \<Longrightarrow> n' \<noteq> n \<Longrightarrow>
     map_of status' n' = map_of status n' \<and>
     map_of (services_confirmed_healthy s') n' = map_of (services_confirmed_healthy s) n'"
  by (auto simp: check_service_def Let_def add_log_def AList.update_conv' AList.delete_conv'
           split: option.splits if_splits sum.splits prod.splits)

lemma check_service_dead:
  "check_service env (n, c) (status, s) = Inr (status', s') \<Longrightarrow>
   \<not> services_running s \<or> map_of (processes s) n = None \<or>
     (\<exists>p. map_of (processes s) n = Some p \<and> poll p \<noteq> None) \<Longrightarrow>
     map_of status' n = Some False \<and>
     map_of (services_confirmed_healthy s') n = None"
  by (auto simp: check_service_def Let_def add_log_def AList.update_conv' AList.delete_conv' dict_in_def
           split: option.splits if_splits sum.splits prod.splits)

lemma check_services_dead:
  "check_services env svcs (status, s) = Inr (status', s') \<Longrightarrow>
   \<not> services_running s \<or> map_of (processes s) n = None \<or>
     (\<exists>p. map_of (processes s) n = Some p \<and> poll p \<noteq> None) \<Longrightarrow>
   n \<in> fst ` set svcs \<or>
     (map_of status n = Some False \<and> map_of (services_confirmed_healthy s) n = None) \<Longrightarrow>
   map_of status' n = Some False \<and> map_of (services_confirmed_healthy s') n = None"
proof (induction svcs arbitrary: status s)
  case Nil
  then show ?case by simp
next
  case (Cons sc rest)
  obtain m c where sc: "sc = (m, c)" by (cases sc)
  from Cons.prems(1) obtain st1 s1 where
    step: "check_service env (m, c) (status, s) = Inr (st1, s1)" and
    rest: "check_services env rest (st1, s1) = Inr (status', s')"
    by (auto simp: sc split: sum.splits)
  from check_service_frame[OF step] Cons.prems(2)
  have dead1: "\<not> services_running s1 \<or> map_of (processes s1) n = None \<or>
     (\<exists>p. map_of (processes s1) n = Some p \<and> poll p \<noteq> None)"
    by simp
  have "n \<in> fst ` set rest \<or>
     (map_of st1 n = Some False \<and> map_of (services_confirmed_healthy s1) n = None)"
  proof (cases "m = n")
    case True
    with check_service_dead[OF _ Cons.prems(2)] step show ?thesis by blast
  next
    case False
    with check_service_other[OF step, of n] Cons.prems(3) sc show ?thesis by auto
  qed
  with Cons.IH[OF rest dead1] show ?case by simp
qed

lemma check_service_frame2:
  "check_service env sc (status, s) = Inr (status', s') \<Longrightarrow>
     health_status_emitted s' = health_status_emitted s \<and>
     detailed_check_counter s' = detailed_check_counter s"
  by (cases sc)
     (auto simp: check_service_def Let_def add_log_def
           split: option.splits if_splits sum.splits prod.splits)

lemma check_services_frame:
  "check_services env svcs (status, s) = Inr (status', s') \<Longrightarrow>
     services_running s' = services_running s \<and> processes s' = processes s \<and>
     services s' = services s \<and> health_status_emitted s' = health_status_emitted s \<and>
     detailed_check_counter s' = detailed_check_counter s"
proof (induction svcs arbitrary: status s)
  case Nil
  then show ?case by simp
next
  case (Cons sc rest)
  from Cons.prems obtain st1 s1 where
    step: "check_service env sc (status, s) = Inr (st1, s1)" and
    rest: "check_services env rest (st1, s1) = Inr (status', s')"
    by (auto split: sum.splits)
  from Cons.IH[OF rest] check_service_frame[OF step] check_service_frame2[OF step]
  show ?case by simp
qed

lemma check_service_not_running:
  "\<not> services_running s \<Longrightarrow>
     check_service env (n, c) (status, s) =
       Inr (AList.update n False status,
            s\<lparr>services_confirmed_healthy := AList.delete n (services_confirmed_healthy s)\<rparr>)"
  by (simp add: check_service_def dict_in_def map_of_eq_None_iff)

lemma check_services_not_running:
  "\<not> services_running s \<Longrightarrow>
     \<exists>status' s'. check_services env svcs (status, s) = Inr (status', s') \<and>
        probes s' = probes s \<and> log_viewer s' = log_viewer s"
proof (induction svcs arbitrary: status s)
  case Nil
  then show ?case by simp
next
  case (Cons sc rest)
  obtain n c where sc: "sc = (n, c)" by (cases sc)
  let ?s1 = "s\<lparr>services_confirmed_healthy := AList.delete n (services_confirmed_healthy s)\<rparr>"
  have "\<not> services_running ?s1" using Cons.prems by simp
  from Cons.IH[OF this, of "AList.update n False status"] 
  show ?case using Cons.prems by (simp add: sc check_service_not_running)
qed

text \<open>
  Claim C1. Take a cycle that completes and publishes its snapshot. For every
  configured service with no handle in the process registry, or whose handle reports
  that the process has exited, the published snapshot maps the service to unhealthy and
  the confirmed-healthy registry has no entry for it after the cycle, however recent
  the entry was.
\<close>

theorem dead_service_unhealthy_and_evicted:
  assumes "cycle env s = Inr (status, secs, s')"
    and "name \<in> fst ` set (services s)"
    and "map_of (processes s) name = None \<or>
         (\<exists>p. map_of (processes s) name = Some p \<and> poll p \<noteq> None)"
  shows "map_of status name = Some False \<and>
         \<not> dict_in name (services_confirmed_healthy s') \<and>
         health_status_emitted s' = health_status_emitted s @ [status]"
proof -
  let ?s0 = "s\<lparr>probes := probes s @ [RedisProbe]\<rparr>"
  let ?st0 = "AList.update ''redis'' (check_redis_health env) []"
  from assms(1) obtain s1 where
    loop: "check_services env (services s) (?st0, ?s0) = Inr (status, s1)" and
    s': "s' = s1\<lparr>detailed_check_counter := detailed_check_counter s1 + 1,
                  health_status_emitted := health_status_emitted s1 @ [status]\<rparr>"
    by (auto simp: cycle_def Let_def split: sum.splits prod.splits)
  have dead: "\<not> services_running ?s0 \<or> map_of (processes ?s0) name = None \<or>
     (\<exists>p. map_of (processes ?s0) name = Some p \<and> poll p \<noteq> None)"
    using assms(3) by simp
  from check_services_dead[OF loop dead] assms(2)
  have "map_of status name = Some False \<and> map_of (services_confirmed_healthy s1) name = None"
    by simp
  moreover from check_services_frame[OF loop]
  have "health_status_emitted s1 = health_status_emitted s" by simp
  ultimately show ?thesis by (simp add: s' dict_in_def)
qed

text \<open>
  The theorem at \<open>gary_died_app\<close>: gary was confirmed healthy 100 seconds ago, its
  process has exited, and the cycle publishes gary as unhealthy and drops the entry.
\<close>

theorem dead_service_unhealthy_and_evicted_witness:
  "\<exists>status secs s'.
     cycle quiet_env gary_died_app = Inr (status, secs, s') \<and>
     ''gary'' \<in> fst ` set (services gary_died_app) \<and>
     (\<exists>p. map_of (processes gary_died_app) ''gary'' = Some p \<and> poll p \<noteq> None) \<and>
     dict_in ''gary'' (services_confirmed_healthy gary_died_app) \<and>
     map_of status ''gary'' = Some False \<and>
     \<not> dict_in ''gary'' (services_confirmed_healthy s') \<and>
     health_status_emitted s' = health_status_emitted gary_died_app @ [status]"
proof -
  obtain status secs s' where c: "cycle quiet_env gary_died_app = Inr (status, secs, s')"
    by (simp add: world_defs monitor_defs)
  have m: "''gary'' \<in> fst ` set (services gary_died_app)"
    by (simp add: world_defs)
  have d: "\<exists>p. map_of (processes gary_died_app) ''gary'' = Some p \<and> poll p \<noteq> None"
    by (simp add: world_defs)
  have f: "dict_in ''gary'' (services_confirmed_healthy gary_died_app)"
    by (simp add: world_defs dict_in_def)
  from dead_service_unhealthy_and_evicted[OF c m] d c m f show ?thesis
    by blast
qed

text \<open>
  Claim C10. While the aggregate running flag is false, a cycle always completes, and
  the snapshot it publishes maps every configured service to unhealthy; no service has
  a confirmed-healthy entry afterwards; the only probe sent is the Redis probe, so
  neither the liveness probe nor the protocol probe runs for any service, whatever
  listens on its port.
\<close>

theorem not_running_cycle_all_unhealthy:
  assumes "\<not> services_running s"
  shows "\<exists>status secs s'.
           cycle env s = Inr (status, secs, s') \<and>
           health_status_emitted s' = health_status_emitted s @ [status] \<and>
           (\<forall>name \<in> fst ` set (services s).
              map_of status name = Some False \<and>
              \<not> dict_in name (services_confirmed_healthy s')) \<and>
           probes s' = probes s @ [RedisProbe] \<and>
           log_viewer s' = log_viewer s"
proof -
  let ?s0 = "s\<lparr>probes := probes s @ [RedisProbe]\<rparr>"
  let ?st0 = "AList.update ''redis'' (check_redis_health env) []"
  have nr: "\<not> services_running ?s0" using assms by simp
  from check_services_not_running[OF nr, of env "services s" ?st0]
  obtain status s1 where
    loop: "check_services env (services s) (?st0, ?s0) = Inr (status, s1)" and
    pr: "probes s1 = probes ?s0" and lg: "log_viewer s1 = log_viewer ?s0"
    by blast
  let ?s' = "s1\<lparr>detailed_check_counter := detailed_check_counter s1 + 1,
                  health_status_emitted := health_status_emitted s1 @ [status]\<rparr>"
  let ?secs = "sleep_time (services ?s') status (services_confirmed_healthy ?s')"
  have c: "cycle env s = Inr (status, ?secs, ?s')"
    using loop by (simp add: cycle_def Let_def)
  have ev: "\<forall>name \<in> fst ` set (services s).
              map_of status name = Some False \<and>
              \<not> dict_in name (services_confirmed_healthy ?s')"
  proof
    fix name assume "name \<in> fst ` set (services s)"
    with check_services_dead[OF loop, of name] nr
    show "map_of status name = Some False \<and>
              \<not> dict_in name (services_confirmed_healthy ?s')"
      by (simp add: dict_in_def)
  qed
  from check_services_frame[OF loop]
  have "health_status_emitted ?s' = health_status_emitted s @ [status]" by simp
  with c ev pr lg show ?thesis by simp
qed

text \<open>
  The theorem at \<open>stopped_app\<close> in a world where every port has a listener and every
  health request would succeed.
\<close>

theorem not_running_cycle_all_unhealthy_witness:
  "\<not> services_running stopped_app \<and>
   check_port_listening quiet_env 8000 \<and>
   dict_in ''gary'' (services_confirmed_healthy stopped_app) \<and>
   (\<exists>status secs s'.
      cycle quiet_env stopped_app = Inr (status, secs, s') \<and>
      health_status_emitted s' = health_status_emitted stopped_app @ [status] \<and>
      map_of status ''gary'' = Some False \<and>
      map_of status ''melodyflow'' = Some False \<and>
      map_of status ''stable-audio'' = Some False \<and>
      \<not> dict_in ''gary'' (services_confirmed_healthy s') \<and>
      probes s' = probes stopped_app @ [RedisProbe])"
proof -
  have h: "\<not> services_running stopped_app"
    by (simp add: world_defs)
  have e: "check_port_listening quiet_env 8000"
    by (simp add: world_defs)
  have f: "dict_in ''gary'' (services_confirmed_healthy stopped_app)"
    by (simp add: world_defs dict_in_def)
  have sv: "fst ` set (services stopped_app) = {''gary'', ''melodyflow'', ''stable-audio''}"
    by (simp add: world_defs)
  from not_running_cycle_all_unhealthy[OF h, of quiet_env] h e f show ?thesis
    unfolding sv by fastforce
qed

text \<open>
  Claim C4, as the code has it. The sleep time chosen at the end of a completed cycle is
  15 seconds when the snapshot maps every configured service to true and the
  confirmed-healthy registry has as many entries as there are configured services;
  otherwise 8 seconds when at least one configured service is true; otherwise 3 seconds.
\<close>

theorem sleep_time_law:
  assumes "cycle env s = Inr (status, secs, s')"
  shows "secs =
     (if (\<forall>n \<in> fst ` set (services s). map_of status n = Some True) \<and>
         length (services_confirmed_healthy s') = length (services s) then 15
      else if (\<exists>n \<in> fst ` set (services s). map_of status n = Some True) then 8
      else 3)"
proof -
  let ?s0 = "s\<lparr>probes := probes s @ [RedisProbe]\<rparr>"
  let ?st0 = "AList.update ''redis'' (check_redis_health env) []"
  from assms obtain s1 where
    loop: "check_services env (services s) (?st0, ?s0) = Inr (status, s1)" and
    s': "s' = s1\<lparr>detailed_check_counter := detailed_check_counter s1 + 1,
                  health_status_emitted := health_status_emitted s1 @ [status]\<rparr>" and
    secs: "secs = sleep_time (services s') status (services_confirmed_healthy s')"
    by (auto simp: cycle_def Let_def split: sum.splits prod.splits)
  from check_services_frame[OF loop] have sv: "services s' = services s"
    by (simp add: s')
  have g: "dict_get status n False \<longleftrightarrow> map_of status n = Some True" for n
    by (auto simp: dict_get_def split: option.splits)
  show ?thesis
    unfolding secs sv sleep_time_def Let_def list_all_iff list_ex_iff g
    by simp
qed

text \<open>
  The claim as stated fails: with every service alive, unconfirmed, not answering its
  health request but listening on its port, the snapshot maps every service to true and
  the sleep time is 8, not 15.
\<close>

theorem all_true_unconfirmed_sleeps_8:
  "published (cycle busy_env all_alive_app) =
     Some ([(''redis'', True), (''gary'', True), (''melodyflow'', True),
            (''stable-audio'', True)], 8)"
  by (simp add: world_defs monitor_defs)

text \<open>The theorem at that cycle.\<close>

theorem sleep_time_law_witness:
  "\<exists>status secs s'.
     cycle busy_env all_alive_app = Inr (status, secs, s') \<and>
     map_of status ''gary'' = Some True \<and>
     map_of status ''melodyflow'' = Some True \<and>
     map_of status ''stable-audio'' = Some True \<and>
     length (services_confirmed_healthy s') = 0 \<and>
     length (services all_alive_app) = 3 \<and>
     secs = 8"
proof -
  obtain status secs s' where
    c: "cycle busy_env all_alive_app = Inr (status, secs, s')" and
    st: "status = [(''redis'', True), (''gary'', True), (''melodyflow'', True),
            (''stable-audio'', True)]" and
    cf: "services_confirmed_healthy s' = []"
    by (simp add: world_defs monitor_defs)
  have sv: "services all_alive_app = default_services"
    by (simp add: world_defs)
  from sleep_time_law[OF c] have "secs = 8"
    unfolding sv cf st by (simp add: default_services_def)
  with c st cf sv show ?thesis
    by (simp add: default_services_def)
qed

subsection \<open>How the loop ends\<close>

lemma check_service_no_raise:
  "\<forall>ev. \<not> add_log_raises env ev \<Longrightarrow> \<exists>r. check_service env sc acc = Inr r"
  by (cases sc; cases acc)
     (auto simp: check_service_def Let_def add_log_def
           split: option.splits if_splits sum.splits prod.splits)

lemma check_services_no_raise:
  "\<forall>ev. \<not> add_log_raises env ev \<Longrightarrow> \<exists>r. check_services env svcs acc = Inr r"
proof (induction svcs arbitrary: acc)
  case Nil
  then show ?case by simp
next
  case (Cons sc rest)
  from check_service_no_raise[OF Cons.prems, of sc acc]
  obtain r where "check_service env sc acc = Inr r" by blast
  with Cons.IH[OF Cons.prems, of r] show ?case by simp
qed

lemma cycle_no_raise:
  assumes "\<forall>ev. \<not> add_log_raises env ev"
  shows "\<exists>status secs s'. cycle env s = Inr (status, secs, s')"
proof -
  from check_services_no_raise[OF assms]
  obtain r where "check_services env (services s)
     (AList.update ''redis'' (check_redis_health env) [], s\<lparr>probes := probes s @ [RedisProbe]\<rparr>) = Inr r"
    by blast
  then show ?thesis
    by (cases r) (simp add: cycle_def Let_def)
qed

lemma run_exception:
  assumes "\<not> stop_called t" and "cycle (tick_env t) s = Inl (ev, s1)"
  shows "run (t # ts) n s =
     (if add_log_raises (tick_env t) (HealthCheckError ev) then (HandlerRaised, Suc n, s1)
      else (ExceptionBreak, Suc n, s1\<lparr>log_viewer := log_viewer s1 @ [HealthCheckError ev]\<rparr>))"
  using assms by (simp add: add_log_def)

lemma run_stop_flag:
  "fst (run ts n s) = StopFlag \<Longrightarrow> \<exists>t \<in> set ts. stop_called t"
proof (induction ts arbitrary: n s)
  case Nil
  then show ?case by simp
next
  case (Cons t ts)
  show ?case
  proof (cases "stop_called t")
    case True
    then show ?thesis by simp
  next
    case False
    show ?thesis
    proof (cases "cycle (tick_env t) s")
      case (Inl x)
      with False Cons.prems show ?thesis
        by (cases x) (auto simp: add_log_def split: if_splits)
    next
      case (Inr r)
      then obtain status secs s' where "cycle (tick_env t) s = Inr (status, secs, s')"
        by (cases r) auto
      with False Cons.prems have "fst (run ts (Suc n) s') = StopFlag" by simp
      from Cons.IH[OF this] show ?thesis by simp
    qed
  qed
qed

lemma run_keeps_running:
  "\<forall>t \<in> set ts. \<not> stop_called t \<and> (\<forall>ev. \<not> add_log_raises (tick_env t) ev) \<Longrightarrow>
     fst (run ts n s) = StillRunning \<and> fst (snd (run ts n s)) = n + length ts"
proof (induction ts arbitrary: n s)
  case Nil
  then show ?case by simp
next
  case (Cons t ts)
  from Cons.prems have ns: "\<not> stop_called t" and nr: "\<forall>ev. \<not> add_log_raises (tick_env t) ev"
    by simp_all
  from cycle_no_raise[OF nr, of s]
  obtain status secs s' where c: "cycle (tick_env t) s = Inr (status, secs, s')" by blast
  from Cons.prems have "\<forall>t \<in> set ts. \<not> stop_called t \<and> (\<forall>ev. \<not> add_log_raises (tick_env t) ev)"
    by simp
  from Cons.IH[OF this, of "Suc n" s'] ns c show ?case by simp
qed

text \<open>
  Claim C2, as the code has it. When the loop condition finds the stop flag cleared,
  the loop ends there, before another cycle. Otherwise a cycle runs: when it completes,
  the loop goes on with the next turn; when an exception is raised inside it, the
  exception is caught and "Health check error" is logged, and then the handler leaves
  the loop: no further cycle runs, whatever the schedule still holds (when the logging
  in the handler raises too, that exception leaves \<^verbatim>\<open>run\<close>). The loop ends on the
  stop flag only when stop was called, and it keeps cycling for as long as stop is not
  called and no logging call raises.
\<close>

theorem health_loop_endings:
  "(stop_called t \<longrightarrow> run (t # ts) n s = (StopFlag, n, s)) \<and>
   (\<not> stop_called t \<and> cycle (tick_env t) s = Inr (status, secs, s2) \<longrightarrow>
      run (t # ts) n s = run ts (Suc n) s2) \<and>
   (\<not> stop_called t \<and> cycle (tick_env t) s = Inl (ev, s1) \<longrightarrow>
      run (t # ts) n s =
        (if add_log_raises (tick_env t) (HealthCheckError ev) then (HandlerRaised, Suc n, s1)
         else (ExceptionBreak, Suc n,
               s1\<lparr>log_viewer := log_viewer s1 @ [HealthCheckError ev]\<rparr>))) \<and>
   (fst (run ts n s) = StopFlag \<longrightarrow> (\<exists>t \<in> set ts. stop_called t)) \<and>
   ((\<forall>t \<in> set ts. \<not> stop_called t \<and> (\<forall>ev. \<not> add_log_raises (tick_env t) ev)) \<longrightarrow>
      fst (run ts n s) = StillRunning \<and> fst (snd (run ts n s)) = n + length ts)"
proof -
  have a: "stop_called t \<longrightarrow> run (t # ts) n s = (StopFlag, n, s)"
    by simp
  have b: "\<not> stop_called t \<and> cycle (tick_env t) s = Inr (status, secs, s2) \<longrightarrow>
      run (t # ts) n s = run ts (Suc n) s2"
    by simp
  from a b run_exception[of t s ev s1 ts n] run_stop_flag[of ts n s]
    run_keeps_running[of ts n s]
  show ?thesis by blast
qed

text \<open>
  The claim as stated fails: stop is never called, the first cycle raises while logging
  the death of gary, and the loop has ended after that one cycle although two more
  turns were scheduled.
\<close>

theorem exception_ends_health_loop:
  "\<not> stop_called failing_tick \<and>
   fst (run [failing_tick, failing_tick, failing_tick] 0 gary_died_app) = ExceptionBreak \<and>
   fst (snd (run [failing_tick, failing_tick, failing_tick] 0 gary_died_app)) = 1"
  by (simp add: failing_tick_def world_defs monitor_defs)

text \<open>
  The theorem at the same state, with one more turn scheduled, and at a schedule whose
  first turn finds stop called.
\<close>

theorem health_loop_endings_witness:
  "\<not> stop_called failing_tick \<and>
   (\<exists>s1. cycle (tick_env failing_tick) gary_died_app = Inl (ProcessDied ''gary main'' 1, s1) \<and>
      run [failing_tick, failing_tick] 0 gary_died_app =
        (ExceptionBreak, 1,
         s1\<lparr>log_viewer := log_viewer s1 @ [HealthCheckError (ProcessDied ''gary main'' 1)]\<rparr>)) \<and>
   stop_called stop_tick \<and>
   run [stop_tick, failing_tick] 0 gary_died_app = (StopFlag, 0, gary_died_app)"
proof -
  have h: "\<not> stop_called failing_tick"
    by (simp add: failing_tick_def)
  obtain s1 where
    c: "cycle (tick_env failing_tick) gary_died_app = Inl (ProcessDied ''gary main'' 1, s1)"
    by (simp add: failing_tick_def world_defs monitor_defs)
  have l: "\<not> add_log_raises (tick_env failing_tick) (HealthCheckError (ProcessDied ''gary main'' 1))"
    by (simp add: failing_tick_def world_defs)
  have k: "stop_called stop_tick"
    by (simp add: stop_tick_def)
  from health_loop_endings[where t = failing_tick and s = gary_died_app
      and ev = "ProcessDied ''gary main'' 1" and ?s1.0 = s1 and ts = "[failing_tick]" and n = 0] h c l
  have e: "run [failing_tick, failing_tick] 0 gary_died_app =
        (ExceptionBreak, 1,
         s1\<lparr>log_viewer := log_viewer s1 @ [HealthCheckError (ProcessDied ''gary main'' 1)]\<rparr>)"
    by auto
  from health_loop_endings[where t = stop_tick and s = gary_died_app
      and ts = "[failing_tick]" and n = 0] k
  have f: "run [stop_tick, failing_tick] 0 gary_died_app = (StopFlag, 0, gary_died_app)"
    by blast
  from h c e k f show ?thesis by blast
qed

section \<open>Properties of the entry points and the supervisor worker\<close>

lemmas worker_defs = good_start_env_def redis_silent_env_def no_redis_env_def
  gentle_stop_env_def

text \<open>
  Claim C9. Invoking the stop entry point while the aggregate running flag is false
  changes nothing: the state it returns is the state it was given, so no terminate and
  no kill is issued and the registry, the flag and the start timestamp are as before.
  The same holds for the worker's stop operation, were it queued and run all the same.
\<close>

theorem stop_when_not_running_is_noop:
  assumes "\<not> services_running s"
  shows "stop_services s = s \<and> worker_stop_services env s = s \<and>
         os_events (worker_run senv env (queue_stop s)) = os_events s \<and>
         processes (worker_run senv env (queue_stop s)) = processes s \<and>
         services_running (worker_run senv env (queue_stop s)) = services_running s \<and>
         start_time (worker_run senv env (queue_stop s)) = start_time s"
  using assms
  by (simp add: stop_services_def worker_stop_services_def worker_run_def queue_stop_def)

text \<open>
  The theorem at \<open>stopped_app\<close>, where a live handle of gary is still registered: it is
  neither terminated nor removed.
\<close>

theorem stop_when_not_running_is_noop_witness:
  "\<not> services_running stopped_app \<and>
   processes stopped_app = [(''gary'', alive 2)] \<and>
   stop_services stopped_app = stopped_app \<and>
   worker_stop_services gentle_stop_env stopped_app = stopped_app \<and>
   os_events (worker_run good_start_env gentle_stop_env (queue_stop stopped_app)) = []"
proof -
  have h: "\<not> services_running stopped_app"
    by (simp add: world_defs)
  have p: "processes stopped_app = [(''gary'', alive 2)]"
    by (simp add: world_defs)
  have e: "os_events stopped_app = []"
    by (simp add: world_defs)
  from stop_when_not_running_is_noop[OF h, of gentle_stop_env good_start_env] h p e
  show ?thesis by simp
qed

subsection \<open>What the steps of a start leave alone\<close>

lemma fold_emit_log:
  "fold (\<lambda>x. emit_log (f x)) xs s = s\<lparr>log_viewer := log_viewer s @ map f xs\<rparr>"
  by (induction xs arbitrary: s) (simp_all add: emit_log_def)

lemma redis_retry_frame:
  "services_running (redis_retry h m xs s) = services_running s \<and>
   start_time (redis_retry h m xs s) = start_time s \<and>
   services (redis_retry h m xs s) = services s \<and>
   processes (redis_retry h m xs s) = processes s \<and>
   os_events (redis_retry h m xs s) = os_events s \<and>
   worker_is_running (redis_retry h m xs s) = worker_is_running s"
  by (induction xs arbitrary: s) (simp_all add: emit_log_def)

lemma start_service_frame:
  "services_running (start_service env sc s) = services_running s \<and>
   start_time (start_service env sc s) = start_time s \<and>
   services (start_service env sc s) = services s \<and>
   worker_is_running (start_service env sc s) = worker_is_running s"
  by (cases sc)
     (simp add: start_service_def emit_log_def Let_def fold_emit_log
           split: option.splits)

lemma fold_start_service_frame:
  "services_running (fold (start_service env) svcs s) = services_running s \<and>
   start_time (fold (start_service env) svcs s) = start_time s \<and>
   services (fold (start_service env) svcs s) = services s"
  by (induction svcs arbitrary: s) (simp_all add: start_service_frame)

lemma upt_5: "[0..<5] = [0, 1, 2, 3, 4]"
  by code_simp

lemma redis_retry_silent:
  assumes "\<forall>k<5. \<not> h k"
  shows "RedisNotResponding \<in> set (log_viewer (redis_retry h 5 [0..<5] s))"
proof -
  from assms have "\<not> h 0" "\<not> h 1" "\<not> h 2" "\<not> h 3" "\<not> h 4" by simp_all
  then show ?thesis by (simp add: upt_5 emit_log_def)
qed

lemma start_service_mono:
  "set (log_viewer s) \<subseteq> set (log_viewer (start_service env sc s)) \<and>
   set (os_events s) \<subseteq> set (os_events (start_service env sc s))"
  by (cases sc)
     (auto simp: start_service_def emit_log_def Let_def fold_emit_log split: option.splits)

lemma fold_start_service_mono:
  "set (log_viewer s) \<subseteq> set (log_viewer (fold (start_service env) svcs s)) \<and>
   set (os_events s) \<subseteq> set (os_events (fold (start_service env) svcs s))"
proof (induction svcs arbitrary: s)
  case Nil
  then show ?case by simp
next
  case (Cons sc rest)
  from Cons.IH[of "start_service env sc s"] start_service_mono[of s env sc]
  show ?case by auto
qed

lemma start_service_keeps_handle:
  "map_of (processes s) name = Some p \<Longrightarrow> service_popen env name = Some p \<Longrightarrow>
     map_of (processes (start_service env sc s)) name = Some p"
  by (cases sc)
     (auto simp: start_service_def emit_log_def Let_def fold_emit_log AList.update_conv'
           split: option.splits)

lemma start_service_launches:
  "python_exe_exists env name \<Longrightarrow> script_exists env name \<Longrightarrow>
   service_popen env name = Some p \<Longrightarrow>
     map_of (processes (start_service env (name, c) s)) name = Some p \<and>
     Popen name (service_env name) \<in> set (os_events (start_service env (name, c) s))"
  by (auto simp: start_service_def emit_log_def Let_def fold_emit_log AList.update_conv'
           split: option.splits)

lemma fold_start_service_launches:
  assumes "python_exe_exists env name" and "script_exists env name"
    and "service_popen env name = Some p"
  shows "(name, c) \<in> set svcs \<or>
         (map_of (processes s) name = Some p \<and> Popen name (service_env name) \<in> set (os_events s)) \<Longrightarrow>
     map_of (processes (fold (start_service env) svcs s)) name = Some p \<and>
     Popen name (service_env name) \<in> set (os_events (fold (start_service env) svcs s))"
proof (induction svcs arbitrary: s)
  case Nil
  then show ?case by simp
next
  case (Cons sc rest)
  have "(name, c) \<in> set rest \<or>
         (map_of (processes (start_service env sc s)) name = Some p \<and>
          Popen name (service_env name) \<in> set (os_events (start_service env sc s)))"
  proof (cases "sc = (name, c)")
    case True
    with start_service_launches[OF assms, of c s] show ?thesis by simp
  next
    case False
    with Cons.prems start_service_keeps_handle[OF _ assms(3), of s sc]
      start_service_mono[of s env sc]
    show ?thesis by auto
  qed
  from Cons.IH[OF this] show ?case by simp
qed

lemma launched_append [simp]:
  "launched name (xs @ ys) = launched name xs + launched name ys"
  by (simp add: launched_def)

lemma launched_simps [simp]:
  "launched name [] = 0"
  "launched name [Popen n vars] = (if n = name then 1 else 0)"
  "launched name [Terminate n] = 0"
  "launched name [Kill n] = 0"
  "launched name [Taskkill] = 0"
  by (simp_all add: launched_def)

lemma launched_flag_simps [simp]:
  "launched name [SetServicesRunning b] = 0"
  "launched name [SetStartTime st] = 0"
  "launched name [Emit sg] = 0"
  "launched name (SetServicesRunning b # evs) = launched name evs"
  "launched name (SetStartTime st # evs) = launched name evs"
  "launched name (Emit sg # evs) = launched name evs"
  by (simp_all add: launched_def)

lemma start_service_trace:
  "\<exists>rest. os_events (start_service env sc s) = os_events s @ rest \<and>
          \<not> list_ex flag_write rest"
proof -
  have "os_events (start_service env sc s) = os_events s @ [] \<or>
        os_events (start_service env sc s) =
          os_events s @ [Popen (fst sc) (service_env (fst sc))]"
    by (cases sc)
       (simp add: start_service_def emit_log_def Let_def fold_emit_log split: option.splits)
  then show ?thesis
  proof
    assume "os_events (start_service env sc s) = os_events s @ []"
    then show ?thesis by (intro exI[of _ "[]"]) simp
  next
    assume "os_events (start_service env sc s) =
              os_events s @ [Popen (fst sc) (service_env (fst sc))]"
    then show ?thesis
      by (intro exI[of _ "[Popen (fst sc) (service_env (fst sc))]"])
         (simp add: flag_write_def)
  qed
qed

lemma fold_start_service_trace:
  "\<exists>rest. os_events (fold (start_service env) svcs s) = os_events s @ rest \<and>
          \<not> list_ex flag_write rest"
proof (induction svcs arbitrary: s)
  case Nil
  show ?case by (intro exI[of _ "[]"]) simp
next
  case (Cons sc rest_svcs)
  from start_service_trace[of env sc s] obtain r1 where
    r1: "os_events (start_service env sc s) = os_events s @ r1" "\<not> list_ex flag_write r1"
    by blast
  from Cons.IH[of "start_service env sc s"] obtain r2 where
    r2: "os_events (fold (start_service env) rest_svcs (start_service env sc s)) =
           os_events (start_service env sc s) @ r2" "\<not> list_ex flag_write r2"
    by blast
  from r1 r2 show ?case
    by (intro exI[of _ "r1 @ r2"]) simp
qed

text \<open>
  Claim C7, as the code has it. A start operation that finds the aggregate running flag
  false begins, after its opening log line, by setting the flag and recording the start
  timestamp, and emits \<^verbatim>\<open>status_changed\<close>: these are the first three entries it adds
  to the trace, before the dependency or any service is launched. Nothing it does
  afterwards writes the flag or the timestamp again, so both are set when the operation
  ends, whatever became of step 1.
\<close>

theorem flag_set_when_start_begins:
  assumes "\<not> services_running s"
  shows "services_running (worker_start_services env s) \<and>
         start_time (worker_start_services env s) = Some (time_now env) \<and>
         (\<exists>rest. os_events (worker_start_services env s) =
                    os_events s @
                    [SetServicesRunning True, SetStartTime (Some (time_now env)),
                     Emit StatusChanged] @ rest \<and>
                 \<not> list_ex flag_write rest)"
proof -
  let ?W = "worker_start_services env s"
  let ?first = "[SetServicesRunning True, SetStartTime (Some (time_now env)),
                     Emit StatusChanged]"
  have st: "services_running ?W \<and> start_time ?W = Some (time_now env)"
    using assms
    by (simp add: worker_start_services_def Let_def emit_log_def fold_emit_log
          fold_start_service_frame redis_retry_frame split: option.splits)
  have tr: "\<exists>rest. os_events ?W = os_events s @ ?first @ rest \<and> \<not> list_ex flag_write rest"
  proof (cases "redis_exe_exists env \<and> (\<exists>rp. redis_popen env = Some rp \<and> poll rp = None) \<and>
                \<not> env_load_raises env")
    case True
    then obtain rp where rp: "redis_popen env = Some rp" "poll rp = None" by blast
    let ?s1 = "(emit_log StartingBackend s)
                  \<lparr>services_running := True, start_time := Some (time_now env),
                   os_events := os_events s @ ?first\<rparr>"
    let ?s3 = "emit_log (RedisStarted (pid rp))
        ((emit_log RedisDefaultConfig (emit_log StartingRedis ?s1))
           \<lparr>os_events := os_events ?s1 @ [Popen ''redis'' []],
             processes := AList.update ''redis'' rp (processes ?s1)\<rparr>)"
    let ?s4 = "redis_retry (redis_health_at env) 5 [0..<5] ?s3"
    have ev: "os_events ?W =
                os_events (fold (start_service env) (services s) ?s4) @ [Emit ServicesStarted]"
      using assms True rp
      by (simp add: worker_start_services_def Let_def fold_emit_log emit_log_def
            redis_retry_frame fold_start_service_frame)
    from fold_start_service_trace[of env "services s" ?s4] obtain r where
      r: "os_events (fold (start_service env) (services s) ?s4) = os_events ?s4 @ r"
         "\<not> list_ex flag_write r"
      by blast
    have e4: "os_events ?s4 = os_events s @ ?first @ [Popen ''redis'' []]"
      by (simp add: redis_retry_frame emit_log_def)
    show ?thesis
      unfolding ev r(1) e4 using r(2)
      by (intro exI[of _ "[Popen ''redis'' []] @ r @ [Emit ServicesStarted]"])
         (simp add: flag_write_def)
  next
    case False
    then have "os_events ?W = os_events s @ ?first @ [] \<or>
               os_events ?W = os_events s @ ?first @ [Popen ''redis'' []]"
      using assms
      by (auto simp: worker_start_services_def Let_def emit_log_def redis_retry_frame
               split: option.splits)
    then show ?thesis
    proof
      assume "os_events ?W = os_events s @ ?first @ []"
      then show ?thesis by (intro exI[of _ "[]"]) simp
    next
      assume "os_events ?W = os_events s @ ?first @ [Popen ''redis'' []]"
      then show ?thesis
        by (intro exI[of _ "[Popen ''redis'' []]"]) (simp add: flag_write_def)
    qed
  qed
  from st tr show ?thesis by blast
qed

text \<open>
  The claim as stated fails: with \<^verbatim>\<open>redis-server.exe\<close> missing, step 1 does not
  succeed and nothing is launched or registered, and yet the flag is true and the
  timestamp recorded.
\<close>

theorem flag_set_although_redis_missing:
  "\<not> services_running init_app \<and>
   \<not> redis_exe_exists no_redis_env \<and>
   services_running (worker_start_services no_redis_env init_app) \<and>
   start_time (worker_start_services no_redis_env init_app) = Some 500 \<and>
   processes (worker_start_services no_redis_env init_app) = [] \<and>
   os_events (worker_start_services no_redis_env init_app) =
     [SetServicesRunning True, SetStartTime (Some 500), Emit StatusChanged]"
  by (simp add: worker_start_services_def emit_log_def Let_def worker_defs init_app_def)

text \<open>
  The theorem at the initial state, in a start where Redis never answers: the writes of
  the flag and the timestamp come first, the launches after them.
\<close>

theorem flag_set_when_start_begins_witness:
  "\<not> services_running init_app \<and>
   services_running (worker_start_services redis_silent_env init_app) \<and>
   start_time (worker_start_services redis_silent_env init_app) = Some 500 \<and>
   (\<exists>rest. os_events (worker_start_services redis_silent_env init_app) =
              [SetServicesRunning True, SetStartTime (Some 500), Emit StatusChanged] @ rest \<and>
           \<not> list_ex flag_write rest) \<and>
   launched ''redis'' (os_events (worker_start_services redis_silent_env init_app)) = 1"
proof -
  have h: "\<not> services_running init_app" by (simp add: init_app_def)
  have t: "time_now redis_silent_env = 500" by (simp add: worker_defs)
  have e: "os_events init_app = []" by (simp add: init_app_def)
  have l: "launched ''redis'' (os_events (worker_start_services redis_silent_env init_app)) = 1"
    by (simp add: worker_start_services_def start_service_def Let_def emit_log_def upt_5
          worker_defs init_app_def default_services_def alive_def launched_def service_env_def)
  from flag_set_when_start_begins[OF h, of redis_silent_env] h l show ?thesis
    unfolding t e by simp
qed

subsection \<open>When a start reaches the services\<close>

lemma start_reaches_services:
  assumes "\<not> services_running s" and "redis_exe_exists env"
    and "redis_popen env = Some rp" and "poll rp = None" and "\<not> env_load_raises env"
  shows "AllServicesStarted \<in> set (log_viewer (worker_start_services env s)) \<and>
         \<not> abort_line (last (log_viewer (worker_start_services env s))) \<and>
         (\<forall>(name, config) \<in> set (services s). \<forall>p.
            python_exe_exists env name \<and> script_exists env name \<and>
            service_popen env name = Some p \<longrightarrow>
              map_of (processes (worker_start_services env s)) name = Some p \<and>
              Popen name (service_env name) \<in> set (os_events (worker_start_services env s)))"
proof -
  let ?W = "worker_start_services env s"
  let ?s1 = "(emit_log StartingBackend s)
                  \<lparr>services_running := True, start_time := Some (time_now env),
                   os_events := os_events s @
                     [SetServicesRunning True, SetStartTime (Some (time_now env)),
                      Emit StatusChanged]\<rparr>"
  let ?s3 = "emit_log (RedisStarted (pid rp))
        ((emit_log RedisDefaultConfig (emit_log StartingRedis ?s1))
           \<lparr>os_events := os_events ?s1 @ [Popen ''redis'' []],
             processes := AList.update ''redis'' rp (processes ?s1)\<rparr>)"
  let ?s4 = "redis_retry (redis_health_at env) 5 [0..<5] ?s3"
  let ?s5 = "fold (start_service env) (services s) ?s4"
  let ?tail = "CheckDebugLogs # map DebugLogPath (map fst (services s))"
  have lg: "log_viewer ?W =
              (log_viewer ?s5 @ [AllServicesStarted, MayTakeAMoment]) @ ?tail"
    using assms
    by (simp add: worker_start_services_def Let_def fold_emit_log emit_log_def
          redis_retry_frame fold_start_service_frame)
  have pr: "processes ?W = processes ?s5"
    using assms
    by (simp add: worker_start_services_def Let_def fold_emit_log emit_log_def
          redis_retry_frame fold_start_service_frame)
  have ev: "os_events ?W = os_events ?s5 @ [Emit ServicesStarted]"
    using assms
    by (simp add: worker_start_services_def Let_def fold_emit_log emit_log_def
          redis_retry_frame fold_start_service_frame)
  have a: "AllServicesStarted \<in> set (log_viewer ?W)"
    unfolding lg by simp
  have "last (log_viewer ?W) = last ?tail"
    unfolding lg by (rule last_appendR) simp
  moreover have "last ?tail \<in> set ?tail"
    by (rule last_in_set) simp
  ultimately have "last (log_viewer ?W) \<in> set ?tail" by simp
  then have b: "\<not> abort_line (last (log_viewer ?W))"
    by (auto simp: abort_line_def)
  have c: "\<forall>(name, config) \<in> set (services s). \<forall>p.
            python_exe_exists env name \<and> script_exists env name \<and>
            service_popen env name = Some p \<longrightarrow>
              map_of (processes ?W) name = Some p \<and>
              Popen name (service_env name) \<in> set (os_events ?W)"
    unfolding pr ev
    using fold_start_service_launches[of env _ _ _ "services s" ?s4]
    by fastforce
  from a b c show ?thesis by blast
qed

lemma start_abort_no_launch:
  assumes "\<not> redis_exe_exists env \<or> redis_popen env = None \<or>
           (\<exists>rp code. redis_popen env = Some rp \<and> poll rp = Some code) \<or>
           env_load_raises env"
    and "name \<noteq> ''redis''"
  shows "launched name (os_events (worker_start_services env s)) = launched name (os_events s) \<and>
         map_of (processes (worker_start_services env s)) name = map_of (processes s) name"
  using assms
  by (auto simp: worker_start_services_def Let_def emit_log_def AList.update_conv'
           redis_retry_frame split: option.splits)

lemma start_abort_line:
  assumes "\<not> services_running s"
    and "\<not> redis_exe_exists env \<or> redis_popen env = None \<or>
           (\<exists>rp code. redis_popen env = Some rp \<and> poll rp = Some code) \<or>
           env_load_raises env"
  shows "abort_line (last (log_viewer (worker_start_services env s)))"
  using assms
  by (auto simp: worker_start_services_def Let_def emit_log_def abort_line_def
           split: option.splits)

lemma start_redis_warning:
  assumes "\<not> services_running s" and "redis_exe_exists env"
    and "redis_popen env = Some rp" and "poll rp = None"
    and "\<forall>k<5. \<not> redis_health_at env k"
  shows "RedisNotResponding \<in> set (log_viewer (worker_start_services env s))"
proof -
  let ?s1 = "(emit_log StartingBackend s)
                  \<lparr>services_running := True, start_time := Some (time_now env),
                   os_events := os_events s @
                     [SetServicesRunning True, SetStartTime (Some (time_now env)),
                      Emit StatusChanged]\<rparr>"
  let ?s3 = "emit_log (RedisStarted (pid rp))
        ((emit_log RedisDefaultConfig (emit_log StartingRedis ?s1))
           \<lparr>os_events := os_events ?s1 @ [Popen ''redis'' []],
             processes := AList.update ''redis'' rp (processes ?s1)\<rparr>)"
  let ?s4 = "redis_retry (redis_health_at env) 5 [0..<5] ?s3"
  have w: "RedisNotResponding \<in> set (log_viewer ?s4)"
    using redis_retry_silent[OF assms(5)] by blast
  have "set (log_viewer ?s4) \<subseteq> set (log_viewer (worker_start_services env s))"
    using assms(1-4) fold_start_service_mono[of ?s4 env "services s"]
    by (auto simp: worker_start_services_def Let_def fold_emit_log emit_log_def
             redis_retry_frame fold_start_service_frame)
  with w show ?thesis by blast
qed

text \<open>
  Claim C3, as the code has it. When Redis launches and stays alive but answers none of
  the five health checks, the operation logs that Redis does not respond, and that is
  no reason for it to stop. A start stops before the services exactly in four cases:
  the Redis executable is missing, the launch of Redis raises, the Redis process has
  exited after the settle delay, or loading the environment variables raises. In each
  of them a failure line is the last line logged, no service is launched and no
  service handle is registered. In every other case the start reaches the services:
  "all services started" is logged, and every configured service whose interpreter and
  script exist and whose launch succeeds is launched and registered.
\<close>

theorem start_continues_when_redis_silent:
  "(\<not> services_running s \<and> redis_exe_exists env \<and> redis_popen env = Some rp \<and>
    poll rp = None \<and> (\<forall>k<5. \<not> redis_health_at env k) \<longrightarrow>
      RedisNotResponding \<in> set (log_viewer (worker_start_services env s))) \<and>
   (\<not> services_running s \<and> redis_exe_exists env \<and> redis_popen env = Some rp \<and>
    poll rp = None \<and> \<not> env_load_raises env \<longrightarrow>
      AllServicesStarted \<in> set (log_viewer (worker_start_services env s)) \<and>
      \<not> abort_line (last (log_viewer (worker_start_services env s))) \<and>
      (\<forall>(name, config) \<in> set (services s). \<forall>p.
         python_exe_exists env name \<and> script_exists env name \<and>
         service_popen env name = Some p \<longrightarrow>
           map_of (processes (worker_start_services env s)) name = Some p \<and>
           Popen name (service_env name) \<in> set (os_events (worker_start_services env s)))) \<and>
   (\<not> redis_exe_exists env \<or> redis_popen env = None \<or>
    (\<exists>rp code. redis_popen env = Some rp \<and> poll rp = Some code) \<or>
    env_load_raises env \<longrightarrow>
      (\<not> services_running s \<longrightarrow>
         abort_line (last (log_viewer (worker_start_services env s)))) \<and>
      (\<forall>name. name \<noteq> ''redis'' \<longrightarrow>
         launched name (os_events (worker_start_services env s)) = launched name (os_events s) \<and>
         map_of (processes (worker_start_services env s)) name = map_of (processes s) name))"
  using start_redis_warning[of s env rp] start_reaches_services[of s env rp]
    start_abort_no_launch[of env _ s] start_abort_line[of s env]
  by blast

text \<open>
  The claim as stated fails: Redis answers none of the five checks, and the three
  services are launched and registered all the same.
\<close>

theorem services_launched_although_redis_silent:
  "\<not> redis_health_at redis_silent_env 0 \<and> \<not> redis_health_at redis_silent_env 1 \<and>
   \<not> redis_health_at redis_silent_env 2 \<and> \<not> redis_health_at redis_silent_env 3 \<and>
   \<not> redis_health_at redis_silent_env 4 \<and>
   map fst (processes (worker_start_services redis_silent_env init_app)) =
     [''redis'', ''gary'', ''melodyflow'', ''stable-audio''] \<and>
   launched ''gary'' (os_events (worker_start_services redis_silent_env init_app)) = 1 \<and>
   launched ''melodyflow'' (os_events (worker_start_services redis_silent_env init_app)) = 1 \<and>
   launched ''stable-audio'' (os_events (worker_start_services redis_silent_env init_app)) = 1"
  by (simp add: worker_start_services_def start_service_def Let_def emit_log_def upt_5
        worker_defs init_app_def default_services_def alive_def launched_def service_env_def)

text \<open>
  The theorem at the same start, for the service gary, and at a start that finds the
  Redis executable missing.
\<close>

theorem start_continues_when_redis_silent_witness:
  "\<not> services_running init_app \<and> redis_exe_exists redis_silent_env \<and>
   redis_popen redis_silent_env = Some (alive 1) \<and> poll (alive 1) = None \<and>
   \<not> redis_health_at redis_silent_env 0 \<and> \<not> redis_health_at redis_silent_env 4 \<and>
   \<not> env_load_raises redis_silent_env \<and>
   (''gary'', snd (hd default_services)) \<in> set (services init_app) \<and>
   python_exe_exists redis_silent_env ''gary'' \<and> script_exists redis_silent_env ''gary'' \<and>
   service_popen redis_silent_env ''gary'' = Some (alive 2) \<and>
   RedisNotResponding \<in> set (log_viewer (worker_start_services redis_silent_env init_app)) \<and>
   AllServicesStarted \<in> set (log_viewer (worker_start_services redis_silent_env init_app)) \<and>
   map_of (processes (worker_start_services redis_silent_env init_app)) ''gary'' = Some (alive 2) \<and>
   Popen ''gary'' (service_env ''gary'') \<in>
     set (os_events (worker_start_services redis_silent_env init_app)) \<and>
   redis_exe_exists no_redis_env = False \<and>
   abort_line (last (log_viewer (worker_start_services no_redis_env init_app))) \<and>
   launched ''gary'' (os_events (worker_start_services no_redis_env init_app)) = 0 \<and>
   map_of (processes (worker_start_services no_redis_env init_app)) ''gary'' = None"
proof -
  have n: "\<not> services_running init_app" by (simp add: init_app_def)
  have h: "redis_exe_exists redis_silent_env \<and>
    redis_popen redis_silent_env = Some (alive 1) \<and> poll (alive 1) = None \<and>
    (\<forall>k<5. \<not> redis_health_at redis_silent_env k) \<and> \<not> env_load_raises redis_silent_env"
    by (simp add: worker_defs alive_def)
  have g: "(''gary'', snd (hd default_services)) \<in> set (services init_app)"
    by (simp add: init_app_def default_services_def)
  have f: "python_exe_exists redis_silent_env ''gary'' \<and> script_exists redis_silent_env ''gary'' \<and>
    service_popen redis_silent_env ''gary'' = Some (alive 2)"
    by (simp add: worker_defs)
  have x: "\<not> redis_exe_exists no_redis_env" by (simp add: worker_defs)
  have i: "launched ''gary'' (os_events init_app) = 0 \<and>
           map_of (processes init_app) ''gary'' = None"
    by (simp add: init_app_def)
  note T1 = start_continues_when_redis_silent[of init_app redis_silent_env "alive 1"]
  note T2 = start_continues_when_redis_silent[of init_app no_redis_env]
  from T1 n h have w: "RedisNotResponding \<in>
      set (log_viewer (worker_start_services redis_silent_env init_app))"
    by blast
  from T1 n h have c: "AllServicesStarted \<in>
        set (log_viewer (worker_start_services redis_silent_env init_app)) \<and>
      (\<forall>(name, config) \<in> set (services init_app). \<forall>p.
         python_exe_exists redis_silent_env name \<and> script_exists redis_silent_env name \<and>
         service_popen redis_silent_env name = Some p \<longrightarrow>
           map_of (processes (worker_start_services redis_silent_env init_app)) name = Some p \<and>
           Popen name (service_env name) \<in>
             set (os_events (worker_start_services redis_silent_env init_app)))"
    by blast
  with g f have l: "map_of (processes (worker_start_services redis_silent_env init_app)) ''gary'' =
      Some (alive 2) \<and>
      Popen ''gary'' (service_env ''gary'') \<in>
        set (os_events (worker_start_services redis_silent_env init_app))"
    by blast
  from T2 n x have a: "abort_line (last (log_viewer (worker_start_services no_redis_env init_app)))"
    by blast
  from T2 x have "launched ''gary'' (os_events (worker_start_services no_redis_env init_app)) =
        launched ''gary'' (os_events init_app) \<and>
      map_of (processes (worker_start_services no_redis_env init_app)) ''gary'' =
        map_of (processes init_app) ''gary''"
    by auto
  then have b: "launched ''gary'' (os_events (worker_start_services no_redis_env init_app)) = 0 \<and>
      map_of (processes (worker_start_services no_redis_env init_app)) ''gary'' = None"
    unfolding i[THEN conjunct1] i[THEN conjunct2] .
  have h04: "\<not> redis_health_at redis_silent_env 0 \<and> \<not> redis_health_at redis_silent_env 4"
    using h by simp
  from n h g f w c l x a b h04 show ?thesis by simp
qed

subsection \<open>Launches and the registry\<close>

lemma start_service_launched:
  "launched name (os_events (start_service env sc s)) \<le>
     launched name (os_events s) + (if fst sc = name then 1 else 0)"
  by (cases sc)
     (simp add: start_service_def emit_log_def Let_def fold_emit_log split: option.splits)

lemma fold_start_service_launched:
  "launched name (os_events (fold (start_service env) svcs s)) \<le>
     launched name (os_events s) + count_list (map fst svcs) name"
proof (induction svcs arbitrary: s)
  case Nil
  then show ?case by simp
next
  case (Cons sc rest)
  from Cons.IH[of "start_service env sc s"] start_service_launched[of name env sc s]
  show ?case by auto
qed

lemma count_list_distinct: "distinct xs \<Longrightarrow> count_list xs x \<le> 1"
  by (induction xs) auto

lemma count_list_absent: "x \<notin> set xs \<Longrightarrow> count_list xs x = 0"
  by (induction xs) auto

lemma start_service_distinct:
  "distinct (map fst (processes s)) \<Longrightarrow>
     distinct (map fst (processes (start_service env sc s)))"
  by (cases sc)
     (simp add: start_service_def emit_log_def Let_def fold_emit_log AList.distinct_update
           split: option.splits)

lemma fold_start_service_distinct:
  "distinct (map fst (processes s)) \<Longrightarrow>
     distinct (map fst (processes (fold (start_service env) svcs s)))"
  by (induction svcs arbitrary: s) (simp_all add: start_service_distinct)

lemma worker_start_services_distinct:
  "distinct (map fst (processes s)) \<Longrightarrow>
     distinct (map fst (processes (worker_start_services env s)))"
  by (simp add: worker_start_services_def Let_def fold_emit_log emit_log_def
        redis_retry_frame fold_start_service_frame fold_start_service_distinct
        AList.distinct_update split: option.splits)

lemma worker_start_services_launched:
  assumes "distinct (map fst (services s))" and "''redis'' \<notin> fst ` set (services s)"
  shows "launched name (os_events (worker_start_services env s)) \<le>
           launched name (os_events s) + 1"
proof -
  have c: "(if name = ''redis'' then 1 else 0) + count_list (map fst (services s)) name \<le> 1"
    using count_list_distinct[OF assms(1), of name] count_list_absent[of "''redis''" "map fst (services s)"] assms(2)
    by auto
  have f: "launched name (os_events (fold (start_service env) (services s) s')) \<le>
     launched name (os_events s') + count_list (map fst (services s)) name" for s'
    by (rule fold_start_service_launched)
  show ?thesis
  proof (cases "\<not> services_running s \<and> redis_exe_exists env \<and>
      (\<exists>rp. redis_popen env = Some rp \<and> poll rp = None) \<and> \<not> env_load_raises env")
    case True
    then obtain rp where rp: "redis_popen env = Some rp" "poll rp = None" by blast
    let ?s1 = "(emit_log StartingBackend s)
                  \<lparr>services_running := True, start_time := Some (time_now env),
                   os_events := os_events s @
                     [SetServicesRunning True, SetStartTime (Some (time_now env)),
                      Emit StatusChanged]\<rparr>"
    let ?s3 = "emit_log (RedisStarted (pid rp))
        ((emit_log RedisDefaultConfig (emit_log StartingRedis ?s1))
           \<lparr>os_events := os_events ?s1 @ [Popen ''redis'' []],
             processes := AList.update ''redis'' rp (processes ?s1)\<rparr>)"
    let ?s4 = "redis_retry (redis_health_at env) 5 [0..<5] ?s3"
    have ev: "os_events (worker_start_services env s) =
                os_events (fold (start_service env) (services s) ?s4) @ [Emit ServicesStarted]"
      using True rp
      by (simp add: worker_start_services_def Let_def fold_emit_log emit_log_def
            redis_retry_frame fold_start_service_frame)
    have l4: "launched name (os_events ?s4) =
            launched name (os_events s) + (if name = ''redis'' then 1 else 0)"
      by (simp add: redis_retry_frame emit_log_def)
    have "launched name (os_events (worker_start_services env s)) =
            launched name (os_events (fold (start_service env) (services s) ?s4))"
      unfolding ev by simp
    with l4 f[of ?s4] c show ?thesis by linarith
  next
    case False
    then show ?thesis
      by (auto simp: worker_start_services_def Let_def emit_log_def redis_retry_frame
               split: option.splits)
  qed
qed

lemma stop_process_frame:
  "launched name (os_events (stop_process env np s)) = launched name (os_events s)"
  by (cases np)
     (simp add: stop_process_def emit_log_def Let_def launched_def split: stop_outcome.splits)

lemma fold_stop_process_frame:
  "launched name (os_events (fold (stop_process env) ps s)) = launched name (os_events s)"
  by (induction ps arbitrary: s) (simp_all add: stop_process_frame)

lemma worker_stop_services_launched:
  "launched name (os_events (worker_stop_services env s)) = launched name (os_events s)"
  by (simp add: worker_stop_services_def Let_def emit_log_def fold_stop_process_frame)

lemma worker_stop_services_distinct:
  "distinct (map fst (processes s)) \<Longrightarrow>
     distinct (map fst (processes (worker_stop_services env s)))"
  by (simp add: worker_stop_services_def Let_def emit_log_def)

text \<open>
  Claim C8. In every state in which the worker thread is running (a start operation is
  in flight), the start entry point returns the state unchanged: it queues nothing and
  launches nothing. When the operation in flight then completes, every identifier has
  been launched at most once more than before (the service identifiers being distinct
  and none of them "redis"), and the process registry has at most one handle per
  identifier.
\<close>

theorem start_single_flight:
  assumes "worker_is_running s"
  shows "start_services s = s \<and>
         (distinct (map fst (services s)) \<and> ''redis'' \<notin> fst ` set (services s) \<longrightarrow>
            launched name (os_events (worker_run senv kenv (start_services s))) \<le>
              launched name (os_events s) + 1) \<and>
         (distinct (map fst (processes s)) \<longrightarrow>
            distinct (map fst (processes (worker_run senv kenv (start_services s)))))"
proof -
  have n: "start_services s = s"
    using assms by (simp add: start_services_def)
  have l: "distinct (map fst (services s)) \<and> ''redis'' \<notin> fst ` set (services s) \<longrightarrow>
            launched name (os_events (worker_run senv kenv s)) \<le> launched name (os_events s) + 1"
    using worker_start_services_launched[of s name senv]
      worker_stop_services_launched[of name kenv s]
    by (auto simp: worker_run_def Let_def split: option.splits operation.splits)
  have d: "distinct (map fst (processes s)) \<longrightarrow>
            distinct (map fst (processes (worker_run senv kenv s)))"
    using worker_start_services_distinct[of s senv] worker_stop_services_distinct[of s kenv]
    by (auto simp: worker_run_def Let_def split: option.splits operation.splits)
  from n l d show ?thesis by simp
qed

text \<open>
  The theorem at \<open>start_in_flight_app\<close>: the second request changes nothing, and the
  start that was in flight launches gary once.
\<close>

theorem start_single_flight_witness:
  "worker_is_running start_in_flight_app \<and>
   worker_operation start_in_flight_app = Some OpStart \<and>
   start_services start_in_flight_app = start_in_flight_app \<and>
   distinct (map fst (services start_in_flight_app)) \<and>
   ''redis'' \<notin> fst ` set (services start_in_flight_app) \<and>
   distinct (map fst (processes start_in_flight_app)) \<and>
   launched ''gary'' (os_events start_in_flight_app) = 0 \<and>
   launched ''gary''
     (os_events (worker_run good_start_env gentle_stop_env (start_services start_in_flight_app)))
     \<le> 1 \<and>
   distinct (map fst (processes
     (worker_run good_start_env gentle_stop_env (start_services start_in_flight_app))))"
proof -
  have a: "worker_is_running start_in_flight_app"
    by (simp add: start_in_flight_app_def start_services_def queue_start_def emit_log_def
          init_app_def)
  have o: "worker_operation start_in_flight_app = Some OpStart"
    by (simp add: start_in_flight_app_def start_services_def queue_start_def emit_log_def
          init_app_def)
  have b: "distinct (map fst (services start_in_flight_app)) \<and>
      ''redis'' \<notin> fst ` set (services start_in_flight_app)"
    by (simp add: start_in_flight_app_def start_services_def queue_start_def emit_log_def
          init_app_def default_services_def)
  have c: "distinct (map fst (processes start_in_flight_app))"
    by (simp add: start_in_flight_app_def start_services_def queue_start_def emit_log_def
          init_app_def)
  have e: "launched ''gary'' (os_events start_in_flight_app) = 0"
    by (simp add: start_in_flight_app_def start_services_def queue_start_def emit_log_def
          init_app_def)
  note T = start_single_flight[OF a, of "''gary''" good_start_env gentle_stop_env]
  from T have t1: "start_services start_in_flight_app = start_in_flight_app"
    by blast
  from T b have "launched ''gary''
     (os_events (worker_run good_start_env gentle_stop_env (start_services start_in_flight_app)))
     \<le> launched ''gary'' (os_events start_in_flight_app) + 1"
    by blast
  then have t2: "launched ''gary''
     (os_events (worker_run good_start_env gentle_stop_env (start_services start_in_flight_app)))
     \<le> 1"
    unfolding e by simp
  from T c have t3: "distinct (map fst (processes
     (worker_run good_start_env gentle_stop_env (start_services start_in_flight_app))))"
    by blast
  from a o b c e t1 t2 t3 show ?thesis by blast
qed

section \<open>Properties of the status aggregator\<close>

lemma map_of_map_keyed:
  "map_of xs k = Some c \<Longrightarrow> map_of (map (\<lambda>sc. (fst sc, f sc)) xs) k = Some (f (k, c))"
  by (induction xs) (auto split: if_splits)

text \<open>
  Claim C6. For the service gary, when the aggregate running flag is true, its handle
  is registered and alive, the last snapshot has it unhealthy and the liveness probe on
  its port succeeds, the state shown is "starting".
\<close>

theorem gary_busy_shows_starting:
  assumes "services_running s"
    and "map_of (services s) ''gary'' = Some config"
    and "map_of (processes s) ''gary'' = Some process"
    and "poll process = None"
    and "\<not> dict_get (last_health_status s) ''gary'' False"
    and "listening (cfg_port config)"
  shows "widget_status listening s (''gary'', config) = StateStarting \<and>
         map_of (service_widgets (update_status_indicators listening s)) ''gary'' =
           Some StateStarting"
proof -
  have w: "widget_status listening s (''gary'', config) = StateStarting"
    using assms by (simp add: widget_status_def)
  have "service_widgets (update_status_indicators listening s) =
          map (\<lambda>sc. (fst sc, widget_status listening s sc)) (services s)"
    by (simp add: update_status_indicators_def Let_def)
  with map_of_map_keyed[OF assms(2), of "widget_status listening s"] w
  show ?thesis by simp
qed

text \<open>The theorem at \<open>gary_busy_app\<close>, with listeners on the service ports.\<close>

theorem gary_busy_shows_starting_witness:
  "services_running gary_busy_app \<and>
   map_of (services gary_busy_app) ''gary'' = Some (snd (hd default_services)) \<and>
   map_of (processes gary_busy_app) ''gary'' = Some (alive 2) \<and>
   poll (alive 2) = None \<and>
   dict_get (last_health_status gary_busy_app) ''gary'' False = False \<and>
   no_redis_listening (cfg_port (snd (hd default_services))) \<and>
   widget_status no_redis_listening gary_busy_app (''gary'', snd (hd default_services)) = StateStarting \<and>
   map_of (service_widgets (update_status_indicators no_redis_listening gary_busy_app)) ''gary'' =
     Some StateStarting"
proof -
  let ?c = "snd (hd default_services)"
  have a1: "services_running gary_busy_app"
    by (simp add: gary_busy_app_def world_defs)
  have a2: "map_of (services gary_busy_app) ''gary'' = Some ?c"
    by (simp add: gary_busy_app_def world_defs)
  have a3: "map_of (processes gary_busy_app) ''gary'' = Some (alive 2)"
    by (simp add: gary_busy_app_def world_defs)
  have a4: "poll (alive 2) = None"
    by (simp add: alive_def)
  have a5: "\<not> dict_get (last_health_status gary_busy_app) ''gary'' False"
    by (simp add: gary_busy_app_def world_defs dict_get_def)
  have a6: "no_redis_listening (cfg_port ?c)"
    by (simp add: no_redis_listening_def default_services_def)
  from gary_busy_shows_starting[OF a1 a2 a3 a4 a5, of no_redis_listening, OF a6] a1 a2 a3 a4 a5 a6
  show ?thesis by simp
qed

subsection \<open>The overall state\<close>

lemma filter_all_iff: "length (filter P xs) = length xs \<longleftrightarrow> (\<forall>x \<in> set xs. P x)"
proof
  assume "length (filter P xs) = length xs"
  then show "\<forall>x \<in> set xs. P x"
    using length_filter_less[of _ xs P] by fastforce
next
  assume "\<forall>x \<in> set xs. P x"
  then have "filter P xs = xs" by (simp add: filter_id_conv)
  then show "length (filter P xs) = length xs" by simp
qed

lemma filter_some_iff: "0 < length (filter P xs) \<longleftrightarrow> (\<exists>x \<in> set xs. P x)"
  by (simp add: filter_empty_conv)

text \<open>
  Claim C5, as the code has it. The overall state is "stopped" when the aggregate
  running flag is false; else "error" when a tracked process other than Redis has
  exited; else "running" when every configured service counts and Redis is healthy in
  the last snapshot or port 6379 has a listener; else "starting" when at least one
  configured service counts or Redis is healthy or listening, which includes every
  service counting while Redis is down; else "error". A service counts when its handle
  is registered and alive and the last snapshot has it healthy or its port has a
  listener.
\<close>

theorem system_status_cases:
  "get_system_status listening s =
    (if \<not> services_running s then StateStopped
     else if (\<exists>np \<in> set (processes s). fst np \<noteq> ''redis'' \<and> poll (snd np) \<noteq> None)
       then StateError
     else if (\<forall>sc \<in> set (services s). counts_healthy listening s sc) \<and>
             (dict_get (last_health_status s) ''redis'' False \<or> listening 6379)
       then StateRunning
     else if (\<exists>sc \<in> set (services s). counts_healthy listening s sc) \<or>
             dict_get (last_health_status s) ''redis'' False \<or> listening 6379
       then StateStarting
     else StateError) \<and>
   (counts_healthy listening s (name, config) \<longleftrightarrow>
      (\<exists>process. map_of (processes s) name = Some process \<and> poll process = None) \<and>
      (dict_get (last_health_status s) name False \<or> listening (cfg_port config)))"
proof
  show "get_system_status listening s =
    (if \<not> services_running s then StateStopped
     else if (\<exists>np \<in> set (processes s). fst np \<noteq> ''redis'' \<and> poll (snd np) \<noteq> None)
       then StateError
     else if (\<forall>sc \<in> set (services s). counts_healthy listening s sc) \<and>
             (dict_get (last_health_status s) ''redis'' False \<or> listening 6379)
       then StateRunning
     else if (\<exists>sc \<in> set (services s). counts_healthy listening s sc) \<or>
             dict_get (last_health_status s) ''redis'' False \<or> listening 6379
       then StateStarting
     else StateError)"
  proof -
    define dead where "dead \<longleftrightarrow>
      (\<exists>np \<in> set (processes s). fst np \<noteq> ''redis'' \<and> poll (snd np) \<noteq> None)"
    define every where "every \<longleftrightarrow>
      (\<forall>sc \<in> set (services s). counts_healthy listening s sc)"
    define some where "some \<longleftrightarrow>
      (\<exists>sc \<in> set (services s). counts_healthy listening s sc)"
    have d: "0 < length (filter (\<lambda>np. fst np \<noteq> ''redis'' \<and> poll (snd np) \<noteq> None)
               (processes s)) \<longleftrightarrow> dead"
      unfolding dead_def by (rule filter_some_iff)
    have e: "length (filter (counts_healthy listening s) (services s)) = length (services s)
               \<longleftrightarrow> every"
      unfolding every_def by (rule filter_all_iff)
    have x: "0 < length (filter (counts_healthy listening s) (services s)) \<longleftrightarrow> some"
      unfolding some_def by (rule filter_some_iff)
    have "get_system_status listening s =
      (if \<not> services_running s then StateStopped
       else if dead then StateError
       else if every \<and> (dict_get (last_health_status s) ''redis'' False \<or> listening 6379)
         then StateRunning
       else if some \<or> dict_get (last_health_status s) ''redis'' False \<or> listening 6379
         then StateStarting
       else StateError)"
      unfolding get_system_status_def Let_def d e x by simp
    then show ?thesis
      unfolding dead_def every_def some_def .
  qed
  show "counts_healthy listening s (name, config) \<longleftrightarrow>
      (\<exists>process. map_of (processes s) name = Some process \<and> poll process = None) \<and>
      (dict_get (last_health_status s) name False \<or> listening (cfg_port config))"
    by (auto simp: counts_healthy_def split: option.splits)
qed

text \<open>
  The claim as stated fails: with the three services alive and healthy and Redis neither
  healthy nor listening, the share of services is 100 percent and the dependency is
  not healthy, which the claim calls "error"; the code answers "starting".
\<close>

theorem all_services_up_redis_down_is_starting:
  "get_system_status no_redis_listening redis_down_app = StateStarting \<and>
   spec_system_status no_redis_listening redis_down_app = StateError"
  by (simp add: get_system_status_def spec_system_status_def counts_healthy_def
        no_redis_listening_def redis_down_app_def world_defs dict_get_def Let_def)

text \<open>The theorem at that state.\<close>

theorem system_status_cases_witness:
  "services_running redis_down_app \<and>
   list_all (counts_healthy no_redis_listening redis_down_app) (services redis_down_app) \<and>
   dict_get (last_health_status redis_down_app) ''redis'' False = False \<and>
   no_redis_listening 6379 = False \<and>
   get_system_status no_redis_listening redis_down_app = StateStarting"
proof -
  have r: "services_running redis_down_app"
    by (simp add: redis_down_app_def world_defs)
  have d: "\<not> (\<exists>np \<in> set (processes redis_down_app).
             fst np \<noteq> ''redis'' \<and> poll (snd np) \<noteq> None)"
    by (simp add: redis_down_app_def world_defs)
  have c: "\<forall>sc \<in> set (services redis_down_app).
             counts_healthy no_redis_listening redis_down_app sc"
    by (simp add: redis_down_app_def world_defs counts_healthy_def dict_get_def)
  have x: "\<exists>sc \<in> set (services redis_down_app).
             counts_healthy no_redis_listening redis_down_app sc"
    by (simp add: redis_down_app_def world_defs counts_healthy_def dict_get_def)
  have k: "\<not> dict_get (last_health_status redis_down_app) ''redis'' False"
    by (simp add: redis_down_app_def world_defs dict_get_def)
  have l: "\<not> no_redis_listening 6379"
    by (simp add: no_redis_listening_def)
  have "get_system_status no_redis_listening redis_down_app = StateStarting"
    using system_status_cases[of no_redis_listening redis_down_app] r d c x k l
    by presburger
  moreover from c
  have "list_all (counts_healthy no_redis_listening redis_down_app) (services redis_down_app)"
    by (simp add: list_all_iff)
  ultimately show ?thesis using r k l by simp
qed

end
